theory Spec2Isabelle
  imports Main
begin

section \<open>Values, exceptions and observable events\<close>

text \<open>
  The two services (\<open>src/nfl_ingestor/main.py\<close> and \<open>src/nfl_processor/main.py\<close>) talk to
  a RabbitMQ broker through the pika library, read the clock, sleep and log. None of that
  is pure, so the embedding makes it explicit:
  \<^item> every call a service makes to the outside (a pika method, \<open>time.sleep\<close>, a logger
    method) is an \<open>event\<close>; a function of the source becomes a HOL function that returns
    how the call ended together with the list of events it produced, in order;
  \<^item> what the outside answers (which calls raise, and what) is a parameter, the
    \<open>world\<close> and the \<open>channel\<close>: the functions are defined for every answer;
  \<^item> a Python exception is a value of \<open>exn\<close>, and a call ends as \<open>Returned v\<close> or
    \<open>Raised e\<close>;
  \<^item> the two \<open>while True\<close> loops and the blocking \<open>start_consuming\<close> take a bound on
    the number of iterations observed (fuel); a call that is still inside its loop when
    the bound is reached ends as \<open>Running\<close>, with the events produced so far.
\<close>

datatype exn =
    JSONDecodeError string
  | Exception string
  | KeyboardInterrupt
  | BaseException string

text \<open>
  \<open>Exception m\<close> stands for an instance of any subclass of Python's \<open>Exception\<close> other than
  \<open>json.JSONDecodeError\<close> (pika's AMQP errors, \<open>AttributeError\<close>, \<open>ValueError\<close>,
  \<open>UnicodeDecodeError\<close>, ...), \<open>BaseException m\<close> for any other class outside
  \<open>Exception\<close> (\<open>SystemExit\<close>, \<open>GeneratorExit\<close>); \<open>m\<close> is what \<open>str(e)\<close> returns.
\<close>

fun is_Exception :: "exn \<Rightarrow> bool" where
  "is_Exception (JSONDecodeError m) = True"
| "is_Exception (Exception m) = True"
| "is_Exception KeyboardInterrupt = False"
| "is_Exception (BaseException m) = False"

fun str_exn :: "exn \<Rightarrow> string" where
  "str_exn (JSONDecodeError m) = m"
| "str_exn (Exception m) = m"
| "str_exn KeyboardInterrupt = []"
| "str_exn (BaseException m) = m"

datatype 'a result = Returned 'a | Raised exn | Running

datatype json =
    JNull
  | JBool bool
  | JInt int
  | JFloat string
  | JStr string
  | JArr "json list"
  | JObj "(string \<times> json) list"

datatype level = INFO | ERROR

datatype event =
    Log level string
  | Connect string int string string int int
  | Sleep int
  | Channel
  | QueueDeclare string bool
  | BasicPublish string string string int
  | BasicConsume string
  | BasicQos int
  | StartConsuming
  | StopConsuming
  | BasicAck int
  | BasicNack int bool
  | Close

text \<open>
  \<open>Connect host port user password heartbeat blocked_connection_timeout\<close> is one evaluation
  of lines 61-70 (\<open>pika.BlockingConnection\<close> on the parameters built from the credentials);
  \<open>QueueDeclare queue durable\<close>, \<open>BasicPublish exchange routing_key body delivery_mode\<close>,
  \<open>BasicConsume queue\<close>, \<open>BasicQos prefetch_count\<close>, \<open>BasicAck delivery_tag\<close> and
  \<open>BasicNack delivery_tag requeue\<close> are the channel methods with the arguments the source
  passes; \<open>Channel\<close> is \<open>connection.channel()\<close> and \<open>Close\<close> is \<open>connection.close()\<close>.
\<close>

subsection \<open>The outside\<close>

record environ =
  LOG_LEVEL :: "exn option"
  RABBITMQ_HOST :: string
  RABBITMQ_PORT :: "exn + int"
  RABBITMQ_USER :: string
  RABBITMQ_PASS :: string
  RABBITMQ_QUEUE :: string
  INGESTOR_INTERVAL :: "exn + int"

text \<open>
  The process environment, as the source reads it: each field is what the \<open>os.getenv\<close>
  expression of that variable evaluates to, its default applied. \<open>RABBITMQ_PORT\<close> and
  \<open>INGESTOR_INTERVAL\<close> hold the outcome of \<open>int(os.getenv(...))\<close>, which raises on a string
  that is not a number; \<open>LOG_LEVEL\<close> holds the exception that
  \<open>logger.setLevel(getattr(logging, ...))\<close> raises on a name that is no level, if any.
\<close>

record channel =
  queue_declare :: "exn option"
  basic_publish :: "exn option"
  basic_consume :: "exn option"
  basic_qos :: "exn option"
  basic_ack :: "exn option"
  basic_nack :: "exn option"
  stop_consuming :: "exn option"

text \<open>
  A pika channel object as the code sees it at one moment: for each method the source
  calls, the exception the call raises (\<open>None\<close>: it returns).
\<close>

datatype connection = Connection nat

datatype feed_item = Delivery int string | Stopped "exn option"

record world =
  json_dumps :: "json \<Rightarrow> string"
  json_loads :: "string \<Rightarrow> exn + json"
  utcnow_isoformat :: "nat \<Rightarrow> string"
  BlockingConnection :: "nat \<Rightarrow> exn option"
  backoff_sleep :: "nat \<Rightarrow> exn option"
  connection_channel :: "exn option"
  channel_at :: "nat \<Rightarrow> channel"
  interval_sleep :: "nat \<Rightarrow> exn option"
  deliveries :: "nat \<Rightarrow> feed_item"
  connection_close :: "exn option"

text \<open>
  Everything else the services depend on.
  \<^item> \<open>json_dumps\<close> is \<open>json.dumps\<close> and \<open>json_loads body\<close> is
    \<open>json.loads(body.decode('utf-8'))\<close>, which raises \<open>UnicodeDecodeError\<close> (an
    \<open>Exception\<close>) or \<open>json.JSONDecodeError\<close>, or returns the decoded value (an object
    lists each key once, as the \<open>dict\<close> it stands for does);
    \<open>utcnow_isoformat k\<close> is \<open>datetime.utcnow().isoformat()\<close> at step \<open>k\<close> of a main loop.
  \<^item> \<open>BlockingConnection i\<close> is how the \<open>i\<close>-th connection attempt of a call of
    \<open>create_rabbitmq_connection\<close> ends (attempts count from 0), \<open>backoff_sleep i\<close> how
    the sleep after it ends; \<open>Connection i\<close> is the connection that attempt \<open>i\<close> opened.
  \<^item> \<open>connection_channel\<close> and \<open>connection_close\<close> are the two methods of the connection;
    \<open>channel_at k\<close> is the channel at step \<open>k\<close> of a main loop and \<open>interval_sleep k\<close>
    how the ingestor's sleep of step \<open>k\<close> ends.
  \<^item> \<open>deliveries k\<close> is what the consumer's blocking \<open>start_consuming\<close> meets at its
    step \<open>k\<close>: a delivery (tag and body) handed to the callback, or the end of the call
    (it returns when the consumer was cancelled, it raises on an interrupt or a lost
    connection).
\<close>

subsection \<open>Python's built-ins\<close>

definition digit_char :: "nat \<Rightarrow> char" where
  "digit_char d = ''0123456789'' ! d"

fun str_nat :: "nat \<Rightarrow> string" where
  "str_nat n = (if n < 10 then [digit_char n] else str_nat (n div 10) @ [digit_char (n mod 10)])"

declare str_nat.simps [simp del]

definition str_int :: "int \<Rightarrow> string" where
  "str_int i = (if i < 0 then CHR ''-'' # str_nat (nat (- i)) else str_nat (nat i))"

definition format_03d :: "nat \<Rightarrow> string" where
  "format_03d n = replicate (3 - length (str_nat n)) CHR ''0'' @ str_nat n"

definition time_sleep :: "int \<Rightarrow> exn option \<Rightarrow> exn option" where
  "time_sleep secs interrupted =
     (if secs < 0 then Some (Exception ''sleep length must be non-negative'') else interrupted)"

section \<open>Connection manager: \<open>create_rabbitmq_connection\<close>\<close>

definition max_delay :: int where
  "max_delay = 60"

fun retry_loop ::
  "nat \<Rightarrow> world \<Rightarrow> string \<Rightarrow> int \<Rightarrow> string \<Rightarrow> string \<Rightarrow> nat \<Rightarrow> int \<Rightarrow> connection result \<times> event list"
where
  "retry_loop 0 w host port user password i retry_delay = (Running, [])"
| "retry_loop (Suc fuel) w host port user password i retry_delay =
     (let attempt =
        [Log INFO (''Attempting to connect to RabbitMQ at '' @ host @ '':'' @ str_int port),
         Connect host port user password 600 300]
      in case BlockingConnection w i of
        None \<Rightarrow>
          (Returned (Connection i), attempt @ [Log INFO ''Successfully connected to RabbitMQ''])
      | Some e \<Rightarrow>
          if is_Exception e then
            (let failed = attempt @
               [Log ERROR (''Failed to connect to RabbitMQ: '' @ str_exn e),
                Log INFO (''Retrying in '' @ str_int retry_delay @ '' seconds...''),
                Sleep retry_delay]
             in case time_sleep retry_delay (backoff_sleep w i) of
               Some e' \<Rightarrow> (Raised e', failed)
             | None \<Rightarrow>
                 (case retry_loop fuel w host port user password (Suc i)
                         (min (retry_delay * 2) max_delay) of
                    (r, evs) \<Rightarrow> (r, failed @ evs)))
          else (Raised e, attempt))"

definition create_rabbitmq_connection ::
  "nat \<Rightarrow> world \<Rightarrow> environ \<Rightarrow> connection result \<times> event list"
where
  "create_rabbitmq_connection fuel w env =
     (let host = RABBITMQ_HOST env in
      case RABBITMQ_PORT env of
        Inl e \<Rightarrow> (Raised e, [])
      | Inr port \<Rightarrow>
          (let user = RABBITMQ_USER env;
               password = RABBITMQ_PASS env;
               retry_delay = 1
           in retry_loop fuel w host port user password 0 retry_delay))"

section \<open>Publisher: \<open>publish_message\<close> and the ingestor's \<open>main\<close>\<close>

definition apostrophe :: string where
  "apostrophe = [CHR 0x27]"

text \<open>The \<open>except Exception\<close> clause of \<open>publish_message\<close> (lines 101-103): log, then re-raise.
  An exception outside \<open>Exception\<close> passes the clause by.\<close>

definition publish_message_except :: "exn \<Rightarrow> event list \<Rightarrow> unit result \<times> event list" where
  "publish_message_except e evs =
     (if is_Exception e
      then (Raised e, evs @ [Log ERROR (''Failed to publish message: '' @ str_exn e)])
      else (Raised e, evs))"

definition publish_message ::
  "world \<Rightarrow> channel \<Rightarrow> string \<Rightarrow> json \<Rightarrow> unit result \<times> event list"
where
  "publish_message w channel queue_name message =
     (let declared = [QueueDeclare queue_name True] in
      case queue_declare channel of
        Some e \<Rightarrow> publish_message_except e declared
      | None \<Rightarrow>
          (let published = declared @ [BasicPublish [] queue_name (json_dumps w message) 2] in
           case basic_publish channel of
             Some e \<Rightarrow> publish_message_except e published
           | None \<Rightarrow>
               (Returned (),
                published @
                [Log INFO (''Message published to queue '' @ apostrophe @ queue_name @ apostrophe
                           @ '': '' @ json_dumps w message)])))"

definition setup_logging :: "environ \<Rightarrow> exn option" where
  "setup_logging env = LOG_LEVEL env"

text \<open>The placeholder message of lines 125-132, for a value of \<open>message_counter\<close>.\<close>

definition test_message :: "world \<Rightarrow> nat \<Rightarrow> json" where
  "test_message w message_counter =
     JObj [(''game_id'', JStr (''test_'' @ format_03d message_counter)),
           (''timestamp'', JStr (utcnow_isoformat w message_counter @ ''Z'')),
           (''home_team'', JStr ''Test Home Team''),
           (''away_team'', JStr ''Test Away Team''),
           (''status'', JStr ''placeholder_data''),
           (''message_number'', JInt (int message_counter))]"

text \<open>The \<open>while True\<close> loop of lines 123-138. The step of the loop is the value of
  \<open>message_counter\<close>.\<close>

fun publish_loop :: "nat \<Rightarrow> world \<Rightarrow> string \<Rightarrow> int \<Rightarrow> nat \<Rightarrow> unit result \<times> event list" where
  "publish_loop 0 w queue_name interval message_counter = (Running, [])"
| "publish_loop (Suc fuel) w queue_name interval message_counter =
     (case publish_message w (channel_at w message_counter) queue_name
             (test_message w message_counter) of
        (r, evs) \<Rightarrow>
          (case r of
             Raised e \<Rightarrow> (Raised e, evs)
           | Running \<Rightarrow> (Running, evs)
           | Returned u \<Rightarrow>
               (let slept = evs @ [Sleep interval] in
                case time_sleep interval (interval_sleep w message_counter) of
                  Some e \<Rightarrow> (Raised e, slept)
                | None \<Rightarrow>
                    (case publish_loop fuel w queue_name interval (Suc message_counter) of
                       (r', evs') \<Rightarrow> (r', slept @ evs')))))"

text \<open>The \<open>finally\<close> clause of both \<open>main\<close> functions: \<open>connection.close()\<close> under a bare
  \<open>except: pass\<close>, then the last log line.\<close>

definition finally_clause :: "world \<Rightarrow> string \<Rightarrow> event list" where
  "finally_clause w service =
     (case connection_close w of
        None \<Rightarrow> [Close, Log INFO ''RabbitMQ connection closed'']
      | Some e \<Rightarrow> [Close])
     @ [Log INFO (''NFL '' @ service @ '' service shutdown complete'')]"

definition main_ingestor :: "nat \<Rightarrow> world \<Rightarrow> environ \<Rightarrow> unit result \<times> event list" where
  "main_ingestor fuel w env =
     (case setup_logging env of
        Some e \<Rightarrow> (Raised e, [])
      | None \<Rightarrow>
     (let started = [Log INFO ''NFL Ingestor service starting up''];
          queue_name = RABBITMQ_QUEUE env in
      case INGESTOR_INTERVAL env of
        Inl e \<Rightarrow> (Raised e, started)
      | Inr interval \<Rightarrow>
     (case create_rabbitmq_connection fuel w env of
        (r, evs) \<Rightarrow>
     (case r of
        Raised e \<Rightarrow> (Raised e, started @ evs)
      | Running \<Rightarrow> (Running, started @ evs)
      | Returned connection \<Rightarrow>
     (let opened = started @ evs @ [Channel] in
      case connection_channel w of
        Some e \<Rightarrow> (Raised e, opened)
      | None \<Rightarrow>
     (let message_counter = 1 in
      case publish_loop fuel w queue_name interval message_counter of
        (r', evs') \<Rightarrow>
     (let tried = opened @
            [Log INFO (''Starting message publishing loop (every '' @ str_int interval
                       @ '' seconds)'')] @ evs' in
      case r' of
        Running \<Rightarrow> (Running, tried)
      | Returned u \<Rightarrow> (Returned (), tried @ finally_clause w ''Ingestor'')
      | Raised e \<Rightarrow>
          if e = KeyboardInterrupt then
            (Returned (),
             tried @ [Log INFO ''Received shutdown signal, stopping service'']
             @ finally_clause w ''Ingestor'')
          else if is_Exception e then
            (Returned (),
             tried @ [Log ERROR (''Unexpected error in main loop: '' @ str_exn e)]
             @ finally_clause w ''Ingestor'')
          else (Raised e, tried @ finally_clause w ''Ingestor''))))))))"

section \<open>Consumer: \<open>process_message\<close> and the processor's \<open>main\<close>\<close>

text \<open>The \<open>method\<close> argument of the callback, pika's \<open>Basic.Deliver\<close> frame; the source reads
  its \<open>delivery_tag\<close> only. The argument is called \<open>deliver\<close> below.\<close>

record basic_deliver =
  delivery_tag :: int

definition no_attribute_get :: "string \<Rightarrow> exn" where
  "no_attribute_get cls =
     Exception (apostrophe @ cls @ apostrophe @ '' object has no attribute ''
                @ apostrophe @ ''get'' @ apostrophe)"

text \<open>\<open>message.get(key)\<close> on a decoded JSON value: only a \<open>dict\<close> has the method, and a
  missing key gives \<open>None\<close>.\<close>

fun dict_get :: "json \<Rightarrow> string \<Rightarrow> exn + json" where
  "dict_get (JObj kvs) key = Inr (case map_of kvs key of None \<Rightarrow> JNull | Some v \<Rightarrow> v)"
| "dict_get JNull key = Inl (no_attribute_get ''NoneType'')"
| "dict_get (JBool b) key = Inl (no_attribute_get ''bool'')"
| "dict_get (JInt i) key = Inl (no_attribute_get ''int'')"
| "dict_get (JFloat f) key = Inl (no_attribute_get ''float'')"
| "dict_get (JStr s) key = Inl (no_attribute_get ''str'')"
| "dict_get (JArr xs) key = Inl (no_attribute_get ''list'')"

definition processed_result :: "string \<Rightarrow> json \<Rightarrow> json" where
  "processed_result now game_id =
     JObj [(''processed_at'', JStr (now @ ''Z'')),
           (''original_game_id'', game_id),
           (''processing_status'', JStr ''success''),
           (''notes'', JStr ''Placeholder processing completed'')]"

text \<open>Lines 91-103, what the source calls the placeholder processing logic: the
  exception it raises, if any, and the log lines it wrote until then. \<open>now\<close> is
  \<open>datetime.utcnow().isoformat()\<close> at the time of the call.\<close>

definition placeholder_processing :: "world \<Rightarrow> string \<Rightarrow> json \<Rightarrow> exn option \<times> event list" where
  "placeholder_processing w now message =
     (let received = [Log INFO (''Message received: '' @ json_dumps w message)] in
      case dict_get message ''status'' of
        Inl e \<Rightarrow> (Some e, received)
      | Inr status \<Rightarrow>
          if status = JStr ''placeholder_data'' then
            (case dict_get message ''game_id'' of
               Inl e \<Rightarrow> (Some e, received)
             | Inr game_id \<Rightarrow>
                 (None,
                  received @
                  [Log INFO (''Processing completed: ''
                             @ json_dumps w (processed_result now game_id))]))
          else (None, received))"

text \<open>\<open>ch.basic_nack(delivery_tag=method.delivery_tag, requeue=False)\<close> in an \<open>except\<close>
  clause: what it raises leaves \<open>process_message\<close>.\<close>

definition reject :: "channel \<Rightarrow> int \<Rightarrow> event list \<Rightarrow> unit result \<times> event list" where
  "reject ch tag evs =
     (case basic_nack ch of
        None \<Rightarrow> (Returned (), evs @ [BasicNack tag False])
      | Some e \<Rightarrow> (Raised e, evs @ [BasicNack tag False]))"

text \<open>The two \<open>except\<close> clauses of \<open>process_message\<close> (lines 108-116), in the source's
  order; \<open>evs\<close> are the events of the \<open>try\<close> block up to the raise.\<close>

fun process_message_except ::
  "channel \<Rightarrow> int \<Rightarrow> exn \<Rightarrow> event list \<Rightarrow> unit result \<times> event list"
where
  "process_message_except ch tag (JSONDecodeError m) evs =
     reject ch tag (evs @ [Log ERROR (''Failed to parse JSON message: '' @ m)])"
| "process_message_except ch tag (Exception m) evs =
     reject ch tag (evs @ [Log ERROR (''Error processing message: '' @ m)])"
| "process_message_except ch tag KeyboardInterrupt evs = (Raised KeyboardInterrupt, evs)"
| "process_message_except ch tag (BaseException m) evs = (Raised (BaseException m), evs)"

definition process_message ::
  "world \<Rightarrow> string \<Rightarrow> channel \<Rightarrow> basic_deliver \<Rightarrow> 'p \<Rightarrow> string \<Rightarrow> unit result \<times> event list"
where
  "process_message w now ch deliver properties body =
     (case json_loads w body of
        Inl e \<Rightarrow> process_message_except ch (delivery_tag deliver) e []
      | Inr message \<Rightarrow>
          (case placeholder_processing w now message of
             (Some e, logged) \<Rightarrow> process_message_except ch (delivery_tag deliver) e logged
           | (None, logged) \<Rightarrow>
               (let acked = logged @ [BasicAck (delivery_tag deliver)] in
                case basic_ack ch of
                  None \<Rightarrow> (Returned (), acked)
                | Some e \<Rightarrow> process_message_except ch (delivery_tag deliver) e acked)))"

text \<open>
  pika's blocking \<open>channel.start_consuming()\<close>, which is not code of the repository: it
  hands each delivery to the registered callback (\<open>process_message\<close>, with the channel as
  \<open>ch\<close>) and waits for the callback to return before it takes the next one; an exception
  of the callback leaves \<open>start_consuming\<close>; the call ends when the world says so. The
  callback of step \<open>k\<close> sees the channel \<open>channel_at w (Suc k)\<close> (step 0 is the set-up in
  \<open>main\<close>).
\<close>

fun start_consuming :: "nat \<Rightarrow> world \<Rightarrow> nat \<Rightarrow> unit result \<times> event list" where
  "start_consuming 0 w k = (Running, [])"
| "start_consuming (Suc fuel) w k =
     (case deliveries w k of
        Stopped None \<Rightarrow> (Returned (), [])
      | Stopped (Some e) \<Rightarrow> (Raised e, [])
      | Delivery tag body \<Rightarrow>
          (case process_message w (utcnow_isoformat w k) (channel_at w (Suc k))
                  \<lparr>delivery_tag = tag\<rparr> () body of
             (r, evs) \<Rightarrow>
               (case r of
                  Raised e \<Rightarrow> (Raised e, evs)
                | Running \<Rightarrow> (Running, evs)
                | Returned u \<Rightarrow>
                    (case start_consuming fuel w (Suc k) of
                       (r', evs') \<Rightarrow> (r', evs @ evs')))))"

text \<open>The \<open>try\<close> block of the processor's \<open>main\<close> (lines 131-146).\<close>

definition consume :: "nat \<Rightarrow> world \<Rightarrow> channel \<Rightarrow> string \<Rightarrow> unit result \<times> event list" where
  "consume fuel w channel queue_name =
     (let declared = [QueueDeclare queue_name True] in
      case queue_declare channel of
        Some e \<Rightarrow> (Raised e, declared)
      | None \<Rightarrow>
     (let subscribed = declared @ [BasicConsume queue_name] in
      case basic_consume channel of
        Some e \<Rightarrow> (Raised e, subscribed)
      | None \<Rightarrow>
     (let limited = subscribed @ [BasicQos 1] in
      case basic_qos channel of
        Some e \<Rightarrow> (Raised e, limited)
      | None \<Rightarrow>
     (let waiting = limited @
            [Log INFO (''Waiting for messages from queue '' @ apostrophe @ queue_name
                       @ apostrophe @ ''. To exit press CTRL+C''),
             StartConsuming] in
      case start_consuming fuel w 0 of
        (r, evs) \<Rightarrow> (r, waiting @ evs)))))"

definition main_processor :: "nat \<Rightarrow> world \<Rightarrow> environ \<Rightarrow> unit result \<times> event list" where
  "main_processor fuel w env =
     (case setup_logging env of
        Some e \<Rightarrow> (Raised e, [])
      | None \<Rightarrow>
     (let started = [Log INFO ''NFL Processor service starting up''];
          queue_name = RABBITMQ_QUEUE env in
      case create_rabbitmq_connection fuel w env of
        (r, evs) \<Rightarrow>
     (case r of
        Raised e \<Rightarrow> (Raised e, started @ evs)
      | Running \<Rightarrow> (Running, started @ evs)
      | Returned connection \<Rightarrow>
     (let opened = started @ evs @ [Channel] in
      case connection_channel w of
        Some e \<Rightarrow> (Raised e, opened)
      | None \<Rightarrow>
     (let channel = channel_at w 0 in
      case consume fuel w channel queue_name of
        (r', evs') \<Rightarrow>
     (let tried = opened @ evs' in
      case r' of
        Running \<Rightarrow> (Running, tried)
      | Returned u \<Rightarrow> (Returned (), tried @ finally_clause w ''Processor'')
      | Raised e \<Rightarrow>
          if e = KeyboardInterrupt then
            (let stopping = tried @
                   [Log INFO ''Received shutdown signal, stopping service'', StopConsuming] in
             case stop_consuming channel of
               None \<Rightarrow> (Returned (), stopping @ finally_clause w ''Processor'')
             | Some e' \<Rightarrow> (Raised e', stopping @ finally_clause w ''Processor''))
          else if is_Exception e then
            (Returned (),
             tried @ [Log ERROR (''Unexpected error in main loop: '' @ str_exn e)]
             @ finally_clause w ''Processor'')
          else (Raised e, tried @ finally_clause w ''Processor'')))))))"

section \<open>The broker's queue table\<close>

text \<open>
  Modelled from the spec: the broker's side of a queue declaration, which is not code of
  the repository (the services only call \<open>queue_declare\<close>). Section 3 of the spec: a
  queue is "named, durable", and "declared idempotently on every connect
  (declare-if-absent semantics, no error if already exists with matching properties)".
  The broker's state is the durable flag of every queue it holds.
\<close>

type_synonym broker = "string \<rightharpoonup> bool"

definition broker_queue_declare :: "broker \<Rightarrow> string \<Rightarrow> bool \<Rightarrow> exn + broker" where
  "broker_queue_declare b queue durable =
     (case b queue of
        None \<Rightarrow> Inr (b(queue \<mapsto> durable))
      | Some d \<Rightarrow> if d = durable then Inr b else Inl (Exception ''PRECONDITION_FAILED''))"

text \<open>The broker after the queue declarations of a list of events, or the first error.\<close>

fun broker_declares :: "broker \<Rightarrow> event list \<Rightarrow> exn + broker" where
  "broker_declares b [] = Inr b"
| "broker_declares b (QueueDeclare queue durable # evs) =
     (case broker_queue_declare b queue durable of
        Inl e \<Rightarrow> Inl e
      | Inr b' \<Rightarrow> broker_declares b' evs)"
| "broker_declares b (ev # evs) = broker_declares b evs"

section \<open>Observations on event lists\<close>



text \<open>Attempt \<open>i\<close> fails with an \<open>Exception\<close> and the sleep after it is not interrupted.\<close>

definition attempt_fails :: "world \<Rightarrow> nat \<Rightarrow> bool" where
  "attempt_fails w i =
     ((case BlockingConnection w i of Some e \<Rightarrow> is_Exception e | None \<Rightarrow> False)
      \<and> backoff_sleep w i = None)"

text \<open>Step \<open>k\<close> of the ingestor's loop goes through: the queue is declared, the message
  is published and the sleep is not interrupted.\<close>

definition step_succeeds :: "world \<Rightarrow> int \<Rightarrow> nat \<Rightarrow> bool" where
  "step_succeeds w interval k =
     (queue_declare (channel_at w k) = None \<and> basic_publish (channel_at w k) = None
      \<and> time_sleep interval (interval_sleep w k) = None)"

fun is_log :: "event \<Rightarrow> bool" where
  "is_log (Log l m) = True"
| "is_log ev = False"

text \<open>The calls to the outside in a list of events, logging left out.\<close>

definition calls :: "event list \<Rightarrow> event list" where
  "calls evs = filter (\<lambda>ev. \<not> is_log ev) evs"

text \<open>The calls that settle a delivery: \<open>basic_ack\<close> and \<open>basic_nack\<close>.\<close>

fun is_settlement :: "event \<Rightarrow> bool" where
  "is_settlement (BasicAck tag) = True"
| "is_settlement (BasicNack tag requeue) = True"
| "is_settlement ev = False"

fun is_publish :: "event \<Rightarrow> bool" where
  "is_publish (BasicPublish exchange routing_key body delivery_mode) = True"
| "is_publish ev = False"

fun is_dict :: "json \<Rightarrow> bool" where
  "is_dict (JObj kvs) = True"
| "is_dict v = False"

datatype json_type = TNull | TBool | TInt | TFloat | TStr | TArr | TObj

fun json_type_of :: "json \<Rightarrow> json_type" where
  "json_type_of JNull = TNull"
| "json_type_of (JBool b) = TBool"
| "json_type_of (JInt i) = TInt"
| "json_type_of (JFloat f) = TFloat"
| "json_type_of (JStr s) = TStr"
| "json_type_of (JArr xs) = TArr"
| "json_type_of (JObj kvs) = TObj"

text \<open>The fields of a JSON object, in order, each with the type of its value.\<close>

fun fields_of :: "json \<Rightarrow> (string \<times> json_type) list" where
  "fields_of (JObj kvs) = map (\<lambda>kv. (fst kv, json_type_of (snd kv))) kvs"
| "fields_of v = []"

section \<open>Sample inputs\<close>

text \<open>
  Concrete inputs on which the theorems below are run. \<open>dumps_plain\<close> writes a JSON value
  the way \<open>json.dumps\<close> does when no string needs an escape, and \<open>loads_sample\<close> is
  \<open>json.loads\<close> on the three bodies the samples use (an empty array, an empty object, an
  object whose status is not the placeholder's) and on a body that is no JSON.
\<close>

fun join_with :: "string \<Rightarrow> string list \<Rightarrow> string" where
  "join_with sep [] = []"
| "join_with sep [x] = x"
| "join_with sep (x # y # ys) = x @ sep @ join_with sep (y # ys)"

definition dquote :: string where
  "dquote = [CHR 0x22]"

fun dumps_plain :: "json \<Rightarrow> string" where
  "dumps_plain JNull = ''null''"
| "dumps_plain (JBool b) = (if b then ''true'' else ''false'')"
| "dumps_plain (JInt i) = str_int i"
| "dumps_plain (JFloat f) = f"
| "dumps_plain (JStr s) = dquote @ s @ dquote"
| "dumps_plain (JArr xs) = ''['' @ join_with '', '' (map dumps_plain xs) @ '']''"
| "dumps_plain (JObj kvs) =
     ''{'' @ join_with '', ''
              (map (\<lambda>kv. dquote @ fst kv @ dquote @ '': '' @ dumps_plain (snd kv)) kvs)
     @ ''}''"

definition final_score :: json where
  "final_score = JObj [(''game_id'', JStr ''nfl_2024_01''), (''status'', JStr ''final'')]"

definition loads_sample :: "string \<Rightarrow> exn + json" where
  "loads_sample body =
     (if body = ''[]'' then Inr (JArr [])
      else if body = ''{}'' then Inr (JObj [])
      else if body = dumps_plain final_score then Inr final_score
      else Inl (JSONDecodeError ''Expecting value: line 1 column 1 (char 0)''))"

definition quiet_channel :: channel where
  "quiet_channel =
     \<lparr> queue_declare = None, basic_publish = None, basic_consume = None, basic_qos = None,
       basic_ack = None, basic_nack = None, stop_consuming = None \<rparr>"

text \<open>A world in which every call returns and no delivery arrives.\<close>

definition quiet_world :: world where
  "quiet_world =
     \<lparr> json_dumps = dumps_plain, json_loads = loads_sample,
       utcnow_isoformat = (\<lambda>k. ''2024-09-08T17:00:00.250000''),
       BlockingConnection = (\<lambda>i. None), backoff_sleep = (\<lambda>i. None),
       connection_channel = None, channel_at = (\<lambda>k. quiet_channel),
       interval_sleep = (\<lambda>k. None), deliveries = (\<lambda>k. Stopped None),
       connection_close = None \<rparr>"

text \<open>The environment with no variable set: every default of the source.\<close>

definition default_environ :: environ where
  "default_environ =
     \<lparr> LOG_LEVEL = None, RABBITMQ_HOST = ''localhost'', RABBITMQ_PORT = Inr 5672,
       RABBITMQ_USER = ''guest'', RABBITMQ_PASS = ''guest'', RABBITMQ_QUEUE = ''game_events'',
       INGESTOR_INTERVAL = Inr 10 \<rparr>"

text \<open>The broker refuses the first \<open>n\<close> connection attempts.\<close>

definition refusing_world :: "nat \<Rightarrow> world" where
  "refusing_world n =
     quiet_world\<lparr>BlockingConnection :=
       (\<lambda>i. if i < n then Some (Exception ''Connection refused'') else None)\<rparr>"

text \<open>The connection opens, then \<open>connection.channel()\<close> raises.\<close>

definition channel_refused_world :: world where
  "channel_refused_world =
     quiet_world\<lparr>connection_channel := Some (Exception ''Channel allocation failed'')\<rparr>"

text \<open>A channel that was closed under the consumer: \<open>basic_ack\<close> raises.\<close>

definition closed_channel :: channel where
  "closed_channel = quiet_channel\<lparr>basic_ack := Some (Exception ''Channel is closed.'')\<rparr>"

text \<open>A channel on which \<open>basic_publish\<close> raises.\<close>

definition publish_failing_channel :: channel where
  "publish_failing_channel = quiet_channel\<lparr>basic_publish := Some (Exception ''Channel is closed.'')\<rparr>"

text \<open>Two messages are ready in the queue when the processor starts; it is interrupted
  after it handled both.\<close>

definition two_ready_world :: world where
  "two_ready_world =
     quiet_world\<lparr>deliveries :=
       (\<lambda>k. if k = 0 then Delivery 1 ''{}''
            else if k = 1 then Delivery 2 (dumps_plain final_score)
            else Stopped (Some KeyboardInterrupt))\<rparr>"

text \<open>The ingestor is interrupted while it sleeps after its second message.\<close>

definition interrupted_world :: world where
  "interrupted_world =
     quiet_world\<lparr>interval_sleep := (\<lambda>k. if k = 2 then Some KeyboardInterrupt else None)\<rparr>"

section \<open>The backoff of the connection manager\<close>









lemma time_sleep_nonneg: "0 \<le> d \<Longrightarrow> time_sleep d x = x"
  by (simp add: time_sleep_def)

lemma retry_loop_failed_fst:
  assumes "attempt_fails w i" "0 \<le> d"
  shows "fst (retry_loop (Suc fuel) w h p u pw i d)
       = fst (retry_loop fuel w h p u pw (Suc i) (min (d * 2) max_delay))"
  using assms
  by (auto simp: attempt_fails_def Let_def time_sleep_nonneg split: option.splits prod.splits)

lemma retry_loop_failed_snd:
  assumes "BlockingConnection w i = Some e" "is_Exception e" "backoff_sleep w i = None" "0 \<le> d"
  shows "snd (retry_loop (Suc fuel) w h p u pw i d)
       = [Log INFO (''Attempting to connect to RabbitMQ at '' @ h @ '':'' @ str_int p),
          Connect h p u pw 600 300,
          Log ERROR (''Failed to connect to RabbitMQ: '' @ str_exn e),
          Log INFO (''Retrying in '' @ str_int d @ '' seconds...''),
          Sleep d] @ snd (retry_loop fuel w h p u pw (Suc i) (min (d * 2) max_delay))"
  using assms
  by (auto simp: Let_def time_sleep_nonneg split: option.splits prod.splits)

lemma retry_loop_running:
  "\<forall>j<n. attempt_fails w (i + j) \<Longrightarrow> 0 \<le> d \<Longrightarrow> fuel \<le> n
    \<Longrightarrow> fst (retry_loop fuel w h p u pw i d) = Running"
proof (induction fuel arbitrary: i d n)
  case 0
  show ?case by simp
next
  case (Suc fuel)
  then obtain m where n: "n = Suc m" by (cases n) auto
  have f: "attempt_fails w i" using Suc.prems(1) n by force
  have "\<forall>j<m. attempt_fails w (Suc i + j)" using Suc.prems(1) n by force
  moreover have "0 \<le> min (d * 2) max_delay" using Suc.prems(2) by (simp add: max_delay_def)
  moreover have "fuel \<le> m" using Suc.prems(3) n by simp
  ultimately have "fst (retry_loop fuel w h p u pw (Suc i) (min (d * 2) max_delay)) = Running"
    by (rule Suc.IH)
  then show ?case using retry_loop_failed_fst [OF f Suc.prems(2)] by simp
qed

lemma retry_loop_connects:
  "\<forall>j<n. attempt_fails w (i + j) \<Longrightarrow> 0 \<le> d \<Longrightarrow> n < fuel \<Longrightarrow> BlockingConnection w (i + n) = None
    \<Longrightarrow> fst (retry_loop fuel w h p u pw i d) = Returned (Connection (i + n))"
proof (induction n arbitrary: i d fuel)
  case 0
  then obtain f where "fuel = Suc f" by (cases fuel) auto
  with 0 show ?case by (simp add: Let_def)
next
  case (Suc n)
  then obtain f where fu: "fuel = Suc f" by (cases fuel) auto
  have f: "attempt_fails w i" using Suc.prems(1) by force
  have "\<forall>j<n. attempt_fails w (Suc i + j)" using Suc.prems(1) by force
  moreover have "0 \<le> min (d * 2) max_delay" using Suc.prems(2) by (simp add: max_delay_def)
  moreover have "n < f" using Suc.prems(3) fu by simp
  moreover have "BlockingConnection w (Suc i + n) = None" using Suc.prems(4) by simp
  ultimately have "fst (retry_loop f w h p u pw (Suc i) (min (d * 2) max_delay))
                   = Returned (Connection (Suc i + n))"
    by (rule Suc.IH)
  then show ?case using retry_loop_failed_fst [OF f Suc.prems(2)] fu by simp
qed

lemma retry_loop_logs:
  "\<forall>j<n. attempt_fails w (i + j) \<Longrightarrow> 0 \<le> d \<Longrightarrow> k < n \<Longrightarrow> k < fuel
    \<Longrightarrow> BlockingConnection w (i + k) = Some e
    \<Longrightarrow> Log ERROR (''Failed to connect to RabbitMQ: '' @ str_exn e)
          \<in> set (snd (retry_loop fuel w h p u pw i d))"
proof (induction fuel arbitrary: i d n k)
  case 0
  then show ?case by simp
next
  case (Suc fuel)
  obtain m where n: "n = Suc m" using Suc.prems(3) by (cases n) auto
  have f: "attempt_fails w i" using Suc.prems(1) n by force
  then obtain e0 where e0: "BlockingConnection w i = Some e0" "is_Exception e0" "backoff_sleep w i = None"
    by (auto simp: attempt_fails_def split: option.splits)
  note S = retry_loop_failed_snd [OF e0 Suc.prems(2), of fuel h p u pw]
  show ?case
  proof (cases k)
    case 0
    with Suc.prems(5) e0 have "e = e0" by simp
    with S show ?thesis by simp
  next
    case (Suc k')
    have "\<forall>j<m. attempt_fails w (Suc i + j)" using Suc.prems(1) n by force
    moreover have "0 \<le> min (d * 2) max_delay" using Suc.prems(2) by (simp add: max_delay_def)
    moreover have "k' < m" "k' < fuel" using Suc.prems(3,4) n Suc by simp_all
    moreover have "BlockingConnection w (Suc i + k') = Some e" using Suc.prems(5) Suc by simp
    ultimately have "Log ERROR (''Failed to connect to RabbitMQ: '' @ str_exn e)
          \<in> set (snd (retry_loop fuel w h p u pw (Suc i) (min (d * 2) max_delay)))"
      by (rule Suc.IH)
    with S show ?thesis by simp
  qed
qed

lemma retry_loop_returned:
  "retry_loop fuel w h p u pw i d = (Returned c, evs)
    \<Longrightarrow> \<exists>n. c = Connection (i + n) \<and> BlockingConnection w (i + n) = None"
proof (induction fuel arbitrary: i d evs)
  case 0
  then show ?case by simp
next
  case (Suc fuel)
  show ?case
  proof (cases "BlockingConnection w i")
    case None
    with Suc.prems have "c = Connection (i + 0)" by (simp add: Let_def)
    with None show ?thesis by (metis add.right_neutral)
  next
    case (Some e)
    with Suc.prems obtain evs' where
      "retry_loop fuel w h p u pw (Suc i) (min (d * 2) max_delay) = (Returned c, evs')"
      by (auto simp: Let_def split: if_splits option.splits prod.splits)
    from Suc.IH [OF this] obtain n where "c = Connection (Suc i + n)" "BlockingConnection w (Suc i + n) = None"
      by blast
    then have "c = Connection (i + Suc n) \<and> BlockingConnection w (i + Suc n) = None" by simp
    then show ?thesis by blast
  qed
qed

lemma retry_loop_raised:
  "retry_loop fuel w h p u pw i d = (Raised e, evs) \<Longrightarrow> 0 \<le> d
    \<Longrightarrow> \<exists>n. (BlockingConnection w (i + n) = Some e \<and> \<not> is_Exception e) \<or> backoff_sleep w (i + n) = Some e"
proof (induction fuel arbitrary: i d evs)
  case 0
  then show ?case by simp
next
  case (Suc fuel)
  show ?case
  proof (cases "attempt_fails w i")
    case True
    have "fst (retry_loop fuel w h p u pw (Suc i) (min (d * 2) max_delay)) = Raised e"
      using retry_loop_failed_fst [OF True Suc.prems(2), of fuel h p u pw] Suc.prems(1) by simp
    then obtain evs' where "retry_loop fuel w h p u pw (Suc i) (min (d * 2) max_delay) = (Raised e, evs')"
      by (cases "retry_loop fuel w h p u pw (Suc i) (min (d * 2) max_delay)") simp
    moreover have "0 \<le> min (d * 2) max_delay" using Suc.prems(2) by (simp add: max_delay_def)
    ultimately obtain n where
      "(BlockingConnection w (Suc i + n) = Some e \<and> \<not> is_Exception e) \<or> backoff_sleep w (Suc i + n) = Some e"
      using Suc.IH by blast
    then have "(BlockingConnection w (i + Suc n) = Some e \<and> \<not> is_Exception e) \<or> backoff_sleep w (i + Suc n) = Some e"
      by simp
    then show ?thesis by blast
  next
    case False
    with Suc.prems have "(BlockingConnection w (i + 0) = Some e \<and> \<not> is_Exception e) \<or> backoff_sleep w (i + 0) = Some e"
      by (auto simp: attempt_fails_def Let_def time_sleep_nonneg split: option.splits if_splits prod.splits)
    then show ?thesis by blast
  qed
qed

text \<open>
  Claim C2. \<open>create_rabbitmq_connection\<close> returns only upon an established connection, and
  a connection failure (an \<open>Exception\<close> of an attempt) is logged and retried without a bound
  on the number of attempts, never surfaced:
  \<^item> a returned connection is the one of an attempt that succeeded;
  \<^item> while the first \<open>n\<close> attempts fail, the call is still in its loop after any number of
    iterations up to \<open>n\<close>, it returns the connection of attempt \<open>n\<close> as soon as that one
    succeeds, and the error of each failed attempt made is logged;
  \<^item> what the call raises is never the \<open>Exception\<close> of an attempt: it is an exception
    outside \<open>Exception\<close> (an interrupt), or one raised by \<open>time.sleep\<close>.
  The port of the environment is a number (\<open>int(...)\<close> of line 50 did not raise).
\<close>

theorem create_rabbitmq_connection_retries_until_connected:
  assumes port: "RABBITMQ_PORT env = Inr port"
  shows "(\<forall>c evs. create_rabbitmq_connection fuel w env = (Returned c, evs) \<longrightarrow>
            (\<exists>n. c = Connection n \<and> BlockingConnection w n = None))
       \<and> (\<forall>n. (\<forall>i<n. attempt_fails w i) \<longrightarrow>
            (fuel \<le> n \<longrightarrow> fst (create_rabbitmq_connection fuel w env) = Running)
          \<and> (n < fuel \<and> BlockingConnection w n = None \<longrightarrow>
               fst (create_rabbitmq_connection fuel w env) = Returned (Connection n))
          \<and> (\<forall>i e. i < n \<and> i < fuel \<and> BlockingConnection w i = Some e \<longrightarrow>
               Log ERROR (''Failed to connect to RabbitMQ: '' @ str_exn e)
                 \<in> set (snd (create_rabbitmq_connection fuel w env))))
       \<and> (\<forall>e evs. create_rabbitmq_connection fuel w env = (Raised e, evs) \<longrightarrow>
            (\<exists>n. (BlockingConnection w n = Some e \<and> \<not> is_Exception e) \<or> backoff_sleep w n = Some e))"
proof -
  let ?h = "RABBITMQ_HOST env" and ?u = "RABBITMQ_USER env" and ?pw = "RABBITMQ_PASS env"
  have crc: "create_rabbitmq_connection fuel w env = retry_loop fuel w ?h port ?u ?pw 0 1"
    using port by (simp add: create_rabbitmq_connection_def)
  have 1: "\<forall>c evs. create_rabbitmq_connection fuel w env = (Returned c, evs) \<longrightarrow>
            (\<exists>n. c = Connection n \<and> BlockingConnection w n = None)"
    using retry_loop_returned [of fuel w ?h port ?u ?pw 0 1] crc by simp
  have 3: "\<forall>e evs. create_rabbitmq_connection fuel w env = (Raised e, evs) \<longrightarrow>
            (\<exists>n. (BlockingConnection w n = Some e \<and> \<not> is_Exception e) \<or> backoff_sleep w n = Some e)"
    using retry_loop_raised [of fuel w ?h port ?u ?pw 0 1] crc by simp
  have 2: "(fuel \<le> n \<longrightarrow> fst (create_rabbitmq_connection fuel w env) = Running)
          \<and> (n < fuel \<and> BlockingConnection w n = None \<longrightarrow>
               fst (create_rabbitmq_connection fuel w env) = Returned (Connection n))
          \<and> (\<forall>i e. i < n \<and> i < fuel \<and> BlockingConnection w i = Some e \<longrightarrow>
               Log ERROR (''Failed to connect to RabbitMQ: '' @ str_exn e)
                 \<in> set (snd (create_rabbitmq_connection fuel w env)))"
    if F: "\<forall>i<n. attempt_fails w i" for n
  proof -
    have F0: "\<forall>j<n. attempt_fails w (0 + j)" using F by simp
    have d: "(0::int) \<le> 1" by simp
    have a: "fuel \<le> n \<longrightarrow> fst (create_rabbitmq_connection fuel w env) = Running"
      using retry_loop_running [OF F0 d] crc by simp
    have b: "n < fuel \<and> BlockingConnection w n = None \<longrightarrow>
               fst (create_rabbitmq_connection fuel w env) = Returned (Connection n)"
      using retry_loop_connects [OF F0 d, of fuel ?h port ?u ?pw] crc by simp
    have c: "\<forall>i e. i < n \<and> i < fuel \<and> BlockingConnection w i = Some e \<longrightarrow>
               Log ERROR (''Failed to connect to RabbitMQ: '' @ str_exn e)
                 \<in> set (snd (create_rabbitmq_connection fuel w env))"
    proof (intro allI impI)
      fix i e
      assume A: "i < n \<and> i < fuel \<and> BlockingConnection w i = Some e"
      then have "BlockingConnection w (0 + i) = Some e" by simp
      with A have "Log ERROR (''Failed to connect to RabbitMQ: '' @ str_exn e)
                 \<in> set (snd (retry_loop fuel w ?h port ?u ?pw 0 1))"
        using retry_loop_logs [OF F0 d] by blast
      then show "Log ERROR (''Failed to connect to RabbitMQ: '' @ str_exn e)
                 \<in> set (snd (create_rabbitmq_connection fuel w env))"
        using crc by simp
    qed
    from a b c show ?thesis by simp
  qed
  from 1 2 3 show ?thesis by blast
qed


theorem create_rabbitmq_connection_retries_until_connected_witness:
  "RABBITMQ_PORT default_environ = Inr 5672
   \<and> attempt_fails (refusing_world 3) 0 \<and> attempt_fails (refusing_world 3) 1
   \<and> attempt_fails (refusing_world 3) 2 \<and> BlockingConnection (refusing_world 3) 3 = None
   \<and> fst (create_rabbitmq_connection 3 (refusing_world 3) default_environ) = Running
   \<and> fst (create_rabbitmq_connection 4 (refusing_world 3) default_environ) = Returned (Connection 3)
   \<and> Log ERROR ''Failed to connect to RabbitMQ: Connection refused''
       \<in> set (snd (create_rabbitmq_connection 4 (refusing_world 3) default_environ))"
proof -
  have P: "RABBITMQ_PORT default_environ = Inr 5672" by (simp add: default_environ_def)
  have F: "\<forall>i<3. attempt_fails (refusing_world 3) i"
    by (simp add: attempt_fails_def refusing_world_def quiet_world_def)
  have N: "BlockingConnection (refusing_world 3) 3 = None"
    by (simp add: refusing_world_def quiet_world_def)
  have S: "BlockingConnection (refusing_world 3) 2 = Some (Exception ''Connection refused'')"
    by (simp add: refusing_world_def quiet_world_def)
  have A: "fst (create_rabbitmq_connection 3 (refusing_world 3) default_environ) = Running"
    using create_rabbitmq_connection_retries_until_connected [OF P, of 3 "refusing_world 3"] F
    by blast
  have T: "(\<forall>n. (\<forall>i<n. attempt_fails (refusing_world 3) i) \<longrightarrow>
            (n < 4 \<and> BlockingConnection (refusing_world 3) n = None \<longrightarrow>
               fst (create_rabbitmq_connection 4 (refusing_world 3) default_environ)
                 = Returned (Connection n))
          \<and> (\<forall>i e. i < n \<and> i < 4 \<and> BlockingConnection (refusing_world 3) i = Some e \<longrightarrow>
               Log ERROR (''Failed to connect to RabbitMQ: '' @ str_exn e)
                 \<in> set (snd (create_rabbitmq_connection 4 (refusing_world 3) default_environ))))"
    using create_rabbitmq_connection_retries_until_connected [OF P, of 4 "refusing_world 3"]
    by blast
  have B: "fst (create_rabbitmq_connection 4 (refusing_world 3) default_environ)
             = Returned (Connection 3)"
    using T F N by simp
  have L: "\<forall>i e. i < 3 \<and> i < 4 \<and> BlockingConnection (refusing_world 3) i = Some e \<longrightarrow>
               Log ERROR (''Failed to connect to RabbitMQ: '' @ str_exn e)
                 \<in> set (snd (create_rabbitmq_connection 4 (refusing_world 3) default_environ))"
    using T F by blast
  have "(2::nat) < 3 \<and> (2::nat) < 4
        \<and> BlockingConnection (refusing_world 3) 2 = Some (Exception ''Connection refused'')"
    using S by simp
  then have "Log ERROR (''Failed to connect to RabbitMQ: '' @ str_exn (Exception ''Connection refused''))
          \<in> set (snd (create_rabbitmq_connection 4 (refusing_world 3) default_environ))"
    using L by blast
  then have C: "Log ERROR ''Failed to connect to RabbitMQ: Connection refused''
       \<in> set (snd (create_rabbitmq_connection 4 (refusing_world 3) default_environ))"
    by simp
  from F have "attempt_fails (refusing_world 3) 0 \<and> attempt_fails (refusing_world 3) 1
     \<and> attempt_fails (refusing_world 3) 2" by simp
  with P N A B C show ?thesis by simp
qed

section \<open>Settling a delivery\<close>

lemma placeholder_processing_logs:
  "filter is_settlement (snd (placeholder_processing w now message)) = []"
  by (auto simp: placeholder_processing_def Let_def split: sum.splits)

lemma placeholder_processing_raises_Exception:
  "placeholder_processing w now message = (Some e, logged) \<Longrightarrow> is_Exception e"
  by (cases message)
     (auto simp: placeholder_processing_def Let_def no_attribute_get_def split: if_splits)

lemma placeholder_processing_dict:
  "(\<exists>logged. placeholder_processing w now message = (None, logged)) \<longleftrightarrow> is_dict message"
  by (cases message) (auto simp: placeholder_processing_def Let_def)

lemma except_settlements:
  "filter is_settlement (snd (process_message_except ch tag e evs))
     = filter is_settlement evs @ (if is_Exception e then [BasicNack tag False] else [])"
  by (cases e) (auto simp: reject_def split: option.splits)

lemma process_message_settlements:
  "filter is_settlement (snd (process_message w now ch deliver properties body)) =
     (case json_loads w body of
        Inl e \<Rightarrow> if is_Exception e then [BasicNack (delivery_tag deliver) False] else []
      | Inr message \<Rightarrow>
          if is_dict message then
            BasicAck (delivery_tag deliver) #
            (case basic_ack ch of
               None \<Rightarrow> []
             | Some e \<Rightarrow> if is_Exception e then [BasicNack (delivery_tag deliver) False] else [])
          else [BasicNack (delivery_tag deliver) False])"
proof (cases "json_loads w body")
  case (Inl e)
  then show ?thesis by (simp add: process_message_def except_settlements)
next
  case (Inr message)
  obtain r logged where P: "placeholder_processing w now message = (r, logged)"
    by (cases "placeholder_processing w now message")
  have L: "filter is_settlement logged = []"
    using placeholder_processing_logs [of w now message] P by simp
  show ?thesis
  proof (cases r)
    case None
    with P have "is_dict message" using placeholder_processing_dict by blast
    with Inr P None L show ?thesis
      by (auto simp: process_message_def Let_def except_settlements split: option.splits)
  next
    case (Some e)
    with P have E: "is_Exception e" by (simp add: placeholder_processing_raises_Exception)
    have "\<not> is_dict message"
      using P Some placeholder_processing_dict [of w now message] by auto
    with Inr P Some L E show ?thesis
      by (simp add: process_message_def except_settlements)
  qed
qed

text \<open>
  Claim C3, as amended. The claim says that \<open>process_message\<close> settles the tag of every
  delivery exactly once. \<open>ch.basic_ack\<close> stands inside the \<open>try\<close> block (line 106), so when
  it raises an \<open>Exception\<close> the clause of line 113 calls \<open>basic_nack\<close> on the same tag
  (the counterexample below); and an interrupt raised while the body is
  decoded leaves the function before either call. What holds: when decoding raises
  nothing outside \<open>Exception\<close> and \<open>basic_ack\<close> raises no \<open>Exception\<close>, the settling calls of
  \<open>process_message\<close> are exactly one call on the delivery's tag, \<open>basic_ack\<close> or \<open>basic_nack\<close>
  without requeue.
\<close>

theorem process_message_settles_once:
  assumes "case json_loads w body of Inl e \<Rightarrow> is_Exception e | Inr message \<Rightarrow> True"
    and "case basic_ack ch of Some e \<Rightarrow> \<not> is_Exception e | None \<Rightarrow> True"
  shows "filter is_settlement (snd (process_message w now ch deliver properties body))
           = [BasicAck (delivery_tag deliver)]
       \<or> filter is_settlement (snd (process_message w now ch deliver properties body))
           = [BasicNack (delivery_tag deliver) False]"
  using assms by (auto simp: process_message_settlements split: sum.splits option.splits)

theorem process_message_settles_once_witness:
  "(case json_loads quiet_world ''{}'' of Inl e \<Rightarrow> is_Exception e | Inr message \<Rightarrow> True)
   \<and> (case basic_ack quiet_channel of Some e \<Rightarrow> \<not> is_Exception e | None \<Rightarrow> True)
   \<and> filter is_settlement
        (snd (process_message quiet_world ''2024-09-08T17:00:01'' quiet_channel
                \<lparr>delivery_tag = 7\<rparr> () ''{}''))
       = [BasicAck 7]"
proof -
  have A: "case json_loads quiet_world ''{}'' of Inl e \<Rightarrow> is_Exception e | Inr message \<Rightarrow> True"
    by (simp add: quiet_world_def loads_sample_def)
  have B: "case basic_ack quiet_channel of Some e \<Rightarrow> \<not> is_Exception e | None \<Rightarrow> True"
    by (simp add: quiet_channel_def)
  have C: "BasicNack 7 False \<notin> set (snd (process_message quiet_world ''2024-09-08T17:00:01''
             quiet_channel \<lparr>delivery_tag = 7\<rparr> () ''{}''))"
    by (simp add: process_message_def placeholder_processing_def quiet_world_def
        quiet_channel_def loads_sample_def Let_def)
  let ?evs = "snd (process_message quiet_world ''2024-09-08T17:00:01'' quiet_channel
                  \<lparr>delivery_tag = 7\<rparr> () ''{}'')"
  have D: "filter is_settlement ?evs = [BasicAck 7] \<or> filter is_settlement ?evs = [BasicNack 7 False]"
    using process_message_settles_once [OF A B, of "''2024-09-08T17:00:01''" "\<lparr>delivery_tag = 7\<rparr>" "()"]
    by simp
  have "filter is_settlement ?evs \<noteq> [BasicNack 7 False]"
  proof
    assume "filter is_settlement ?evs = [BasicNack 7 False]"
    then have "BasicNack 7 False \<in> set (filter is_settlement ?evs)" by simp
    then have "BasicNack 7 False \<in> set ?evs" by simp
    with C show False by simp
  qed
  with D have "filter is_settlement ?evs = [BasicAck 7]" by simp
  with A B show ?thesis by simp
qed

text \<open>The claim as stated fails: on a channel whose \<open>basic_ack\<close> raises, a well-formed
  delivery is acknowledged and then rejected.\<close>

theorem process_message_ack_then_nack:
  "filter is_settlement
     (snd (process_message quiet_world ''2024-09-08T17:00:01'' closed_channel
             \<lparr>delivery_tag = 7\<rparr> () ''{}''))
   = [BasicAck 7, BasicNack 7 False]"
  by (simp add: process_message_def placeholder_processing_def quiet_world_def closed_channel_def
      quiet_channel_def loads_sample_def reject_def Let_def)

lemma process_message_ack_member:
  "BasicAck t \<in> set (snd (process_message w now ch deliver properties body))
     \<longleftrightarrow> t = delivery_tag deliver \<and> (\<exists>message. json_loads w body = Inr message \<and> is_dict message)"
proof -
  have "BasicAck t \<in> set (snd (process_message w now ch deliver properties body))
     \<longleftrightarrow> BasicAck t \<in> set (filter is_settlement (snd (process_message w now ch deliver properties body)))"
    by simp
  also have "\<dots> \<longleftrightarrow> t = delivery_tag deliver \<and> (\<exists>message. json_loads w body = Inr message \<and> is_dict message)"
    unfolding process_message_settlements by (auto split: sum.splits option.splits)
  finally show ?thesis .
qed

lemma process_message_nack_member:
  "BasicNack t rq \<in> set (snd (process_message w now ch deliver properties body))
     \<longleftrightarrow> t = delivery_tag deliver \<and> \<not> rq \<and>
         (case json_loads w body of
            Inl e \<Rightarrow> is_Exception e
          | Inr message \<Rightarrow>
              \<not> is_dict message \<or> (case basic_ack ch of None \<Rightarrow> False | Some e \<Rightarrow> is_Exception e))"
proof -
  have "BasicNack t rq \<in> set (snd (process_message w now ch deliver properties body))
     \<longleftrightarrow> BasicNack t rq \<in> set (filter is_settlement (snd (process_message w now ch deliver properties body)))"
    by simp
  also have "\<dots> \<longleftrightarrow> t = delivery_tag deliver \<and> \<not> rq \<and>
         (case json_loads w body of
            Inl e \<Rightarrow> is_Exception e
          | Inr message \<Rightarrow>
              \<not> is_dict message \<or> (case basic_ack ch of None \<Rightarrow> False | Some e \<Rightarrow> is_Exception e))"
    unfolding process_message_settlements by (auto split: sum.splits option.splits)
  finally show ?thesis .
qed

text \<open>
  Claim C4. \<open>process_message\<close> calls \<open>basic_ack\<close> if and only if decoding and the
  placeholder processing both succeed; when decoding fails (an \<open>Exception\<close> of
  \<open>json.loads\<close> or of \<open>decode\<close>) and when the processing raises, it calls \<open>basic_nack\<close>
  without requeue and does not acknowledge; it never calls \<open>basic_nack\<close> with requeue.
\<close>

theorem process_message_ack_iff_success:
  "(BasicAck (delivery_tag deliver) \<in> set (snd (process_message w now ch deliver properties body))
      \<longleftrightarrow> (\<exists>message logged. json_loads w body = Inr message
             \<and> placeholder_processing w now message = (None, logged)))
   \<and> (\<forall>e. json_loads w body = Inl e \<and> is_Exception e \<longrightarrow>
         BasicNack (delivery_tag deliver) False
           \<in> set (snd (process_message w now ch deliver properties body))
         \<and> BasicAck (delivery_tag deliver)
           \<notin> set (snd (process_message w now ch deliver properties body)))
   \<and> (\<forall>message e logged. json_loads w body = Inr message
         \<and> placeholder_processing w now message = (Some e, logged) \<longrightarrow>
         BasicNack (delivery_tag deliver) False
           \<in> set (snd (process_message w now ch deliver properties body))
         \<and> BasicAck (delivery_tag deliver)
           \<notin> set (snd (process_message w now ch deliver properties body)))
   \<and> (\<forall>t. BasicNack t True \<notin> set (snd (process_message w now ch deliver properties body)))"
proof -
  let ?evs = "snd (process_message w now ch deliver properties body)"
  have 1: "BasicAck (delivery_tag deliver) \<in> set ?evs
      \<longleftrightarrow> (\<exists>message logged. json_loads w body = Inr message
             \<and> placeholder_processing w now message = (None, logged))"
    using placeholder_processing_dict [of w now] by (auto simp: process_message_ack_member)
  have 2: "\<forall>e. json_loads w body = Inl e \<and> is_Exception e \<longrightarrow>
         BasicNack (delivery_tag deliver) False \<in> set ?evs
         \<and> BasicAck (delivery_tag deliver) \<notin> set ?evs"
    by (auto simp: process_message_ack_member process_message_nack_member)
  have 3: "\<forall>message e logged. json_loads w body = Inr message
         \<and> placeholder_processing w now message = (Some e, logged) \<longrightarrow>
         BasicNack (delivery_tag deliver) False \<in> set ?evs
         \<and> BasicAck (delivery_tag deliver) \<notin> set ?evs"
  proof (intro allI impI)
    fix message e logged
    assume A: "json_loads w body = Inr message
         \<and> placeholder_processing w now message = (Some e, logged)"
    then have "\<not> is_dict message"
      using placeholder_processing_dict [of w now message] by auto
    with A show "BasicNack (delivery_tag deliver) False \<in> set ?evs
         \<and> BasicAck (delivery_tag deliver) \<notin> set ?evs"
      by (simp add: process_message_ack_member process_message_nack_member)
  qed
  have 4: "\<forall>t. BasicNack t True \<notin> set ?evs"
    by (simp add: process_message_nack_member)
  from 1 2 3 4 show ?thesis by blast
qed

theorem process_message_ack_iff_success_witness:
  "json_loads quiet_world ''not json''
     = Inl (JSONDecodeError ''Expecting value: line 1 column 1 (char 0)'')
   \<and> is_Exception (JSONDecodeError ''Expecting value: line 1 column 1 (char 0)'')
   \<and> BasicNack 7 False
       \<in> set (snd (process_message quiet_world ''2024-09-08T17:00:01'' quiet_channel
                     \<lparr>delivery_tag = 7\<rparr> () ''not json''))
   \<and> BasicAck 7
       \<notin> set (snd (process_message quiet_world ''2024-09-08T17:00:01'' quiet_channel
                     \<lparr>delivery_tag = 7\<rparr> () ''not json''))"
proof -
  have L: "json_loads quiet_world ''not json''
     = Inl (JSONDecodeError ''Expecting value: line 1 column 1 (char 0)'')"
    by (simp add: quiet_world_def loads_sample_def dumps_plain.simps final_score_def dquote_def)
  have E: "is_Exception (JSONDecodeError ''Expecting value: line 1 column 1 (char 0)'')"
    by simp
  have "BasicNack (delivery_tag \<lparr>delivery_tag = 7\<rparr>) False
       \<in> set (snd (process_message quiet_world ''2024-09-08T17:00:01'' quiet_channel
                     \<lparr>delivery_tag = 7\<rparr> () ''not json''))
   \<and> BasicAck (delivery_tag \<lparr>delivery_tag = 7\<rparr>)
       \<notin> set (snd (process_message quiet_world ''2024-09-08T17:00:01'' quiet_channel
                     \<lparr>delivery_tag = 7\<rparr> () ''not json''))"
    using process_message_ack_iff_success [of "\<lparr>delivery_tag = 7\<rparr>" quiet_world
        "''2024-09-08T17:00:01''" quiet_channel "()" "''not json''"] L E
    by blast
  with L E show ?thesis by simp
qed

lemma except_events:
  "\<exists>rest. snd (process_message_except ch tag e evs) = evs @ rest
     \<and> (\<forall>ev\<in>set rest. ev = BasicNack tag False \<or> (\<exists>m. ev = Log ERROR m))"
  by (cases e) (simp_all add: reject_def split: option.splits)

lemma placeholder_processing_dict_events:
  "placeholder_processing w now (JObj kvs)
     = (None,
        Log INFO (''Message received: '' @ json_dumps w (JObj kvs))
        # (if map_of kvs ''status'' = Some (JStr ''placeholder_data'')
           then [Log INFO (''Processing completed: ''
                   @ json_dumps w (processed_result now
                        (case map_of kvs ''game_id'' of None \<Rightarrow> JNull | Some v \<Rightarrow> v)))]
           else []))"
  by (simp add: placeholder_processing_def Let_def split: option.splits)

lemma process_message_dict_events:
  assumes "json_loads w body = Inr (JObj kvs)"
  shows "\<exists>rest. snd (process_message w now ch deliver properties body)
           = (Log INFO (''Message received: '' @ json_dumps w (JObj kvs))
             # (if map_of kvs ''status'' = Some (JStr ''placeholder_data'')
                then [Log INFO (''Processing completed: ''
                        @ json_dumps w (processed_result now
                             (case map_of kvs ''game_id'' of None \<Rightarrow> JNull | Some v \<Rightarrow> v)))]
                else []))
             @ BasicAck (delivery_tag deliver) # rest
           \<and> (\<forall>ev\<in>set rest. ev = BasicNack (delivery_tag deliver) False
                  \<or> (\<exists>m. ev = Log ERROR m))"
proof (cases "basic_ack ch")
  case None
  with assms have "snd (process_message w now ch deliver properties body)
           = (Log INFO (''Message received: '' @ json_dumps w (JObj kvs))
             # (if map_of kvs ''status'' = Some (JStr ''placeholder_data'')
                then [Log INFO (''Processing completed: ''
                        @ json_dumps w (processed_result now
                             (case map_of kvs ''game_id'' of None \<Rightarrow> JNull | Some v \<Rightarrow> v)))]
                else []))
             @ BasicAck (delivery_tag deliver) # []"
    by (simp add: process_message_def placeholder_processing_dict_events Let_def)
  moreover have "\<forall>ev\<in>set []. ev = BasicNack (delivery_tag deliver) False
                  \<or> (\<exists>m. ev = Log ERROR m)" by simp
  ultimately show ?thesis by blast
next
  case (Some e)
  let ?logged = "Log INFO (''Message received: '' @ json_dumps w (JObj kvs))
             # (if map_of kvs ''status'' = Some (JStr ''placeholder_data'')
                then [Log INFO (''Processing completed: ''
                        @ json_dumps w (processed_result now
                             (case map_of kvs ''game_id'' of None \<Rightarrow> JNull | Some v \<Rightarrow> v)))]
                else [])"
  have P: "snd (process_message w now ch deliver properties body)
      = snd (process_message_except ch (delivery_tag deliver) e
               (?logged @ [BasicAck (delivery_tag deliver)]))"
    using assms Some
    by (simp add: process_message_def placeholder_processing_dict_events Let_def)
  obtain rest where R: "snd (process_message_except ch (delivery_tag deliver) e
               (?logged @ [BasicAck (delivery_tag deliver)]))
       = (?logged @ [BasicAck (delivery_tag deliver)]) @ rest"
    and N: "\<forall>ev\<in>set rest. ev = BasicNack (delivery_tag deliver) False \<or> (\<exists>m. ev = Log ERROR m)"
    using except_events by blast
  have "snd (process_message w now ch deliver properties body)
          = ?logged @ BasicAck (delivery_tag deliver) # rest"
    using P R by simp
  with N show ?thesis by blast
qed

text \<open>
  Claim C10, as amended. The claim says that every body that decodes as JSON is
  acknowledged. A body that decodes to a JSON value other than an object (an array, a
  string, a number, a boolean, \<open>null\<close>) has no \<open>get\<close> method: line 96 raises
  \<open>AttributeError\<close> and the delivery is rejected (the counterexample
  below). What holds: every body that decodes to a JSON object is acknowledged, whatever
  its fields, \<open>basic_ack\<close> being the first settling call; the test of \<open>status\<close> decides
  only whether the line "Processing completed" is logged; and a body that decodes to
  anything else is rejected without requeue.
\<close>

theorem process_message_acks_every_dict:
  "(\<forall>kvs. json_loads w body = Inr (JObj kvs) \<longrightarrow>
       BasicAck (delivery_tag deliver)
         \<in> set (snd (process_message w now ch deliver properties body))
       \<and> hd (filter is_settlement (snd (process_message w now ch deliver properties body)))
         = BasicAck (delivery_tag deliver)
       \<and> (Log INFO (''Processing completed: ''
              @ json_dumps w (processed_result now
                   (case map_of kvs ''game_id'' of None \<Rightarrow> JNull | Some v \<Rightarrow> v)))
            \<in> set (snd (process_message w now ch deliver properties body))
          \<longleftrightarrow> map_of kvs ''status'' = Some (JStr ''placeholder_data'')))
   \<and> (\<forall>message. json_loads w body = Inr message \<and> \<not> is_dict message \<longrightarrow>
       BasicAck (delivery_tag deliver)
         \<notin> set (snd (process_message w now ch deliver properties body))
       \<and> BasicNack (delivery_tag deliver) False
         \<in> set (snd (process_message w now ch deliver properties body)))"
proof -
  let ?evs = "snd (process_message w now ch deliver properties body)"
  have A: "BasicAck (delivery_tag deliver) \<in> set ?evs
       \<and> hd (filter is_settlement ?evs) = BasicAck (delivery_tag deliver)
       \<and> (Log INFO (''Processing completed: ''
              @ json_dumps w (processed_result now
                   (case map_of kvs ''game_id'' of None \<Rightarrow> JNull | Some v \<Rightarrow> v)))
            \<in> set ?evs
          \<longleftrightarrow> map_of kvs ''status'' = Some (JStr ''placeholder_data''))"
    if L: "json_loads w body = Inr (JObj kvs)" for kvs
  proof -
    have 1: "BasicAck (delivery_tag deliver) \<in> set ?evs"
      using L by (simp add: process_message_ack_member)
    have 2: "hd (filter is_settlement ?evs) = BasicAck (delivery_tag deliver)"
      using L by (simp add: process_message_settlements)
    from process_message_dict_events [OF L, of now ch deliver properties]
    obtain rest where RN: "?evs
           = (Log INFO (''Message received: '' @ json_dumps w (JObj kvs))
             # (if map_of kvs ''status'' = Some (JStr ''placeholder_data'')
                then [Log INFO (''Processing completed: ''
                        @ json_dumps w (processed_result now
                             (case map_of kvs ''game_id'' of None \<Rightarrow> JNull | Some v \<Rightarrow> v)))]
                else []))
             @ BasicAck (delivery_tag deliver) # rest
           \<and> (\<forall>ev\<in>set rest. ev = BasicNack (delivery_tag deliver) False
                  \<or> (\<exists>m. ev = Log ERROR m))" ..
    note R = RN [THEN conjunct1] and N = RN [THEN conjunct2]
    have 3: "Log INFO (''Processing completed: ''
              @ json_dumps w (processed_result now
                   (case map_of kvs ''game_id'' of None \<Rightarrow> JNull | Some v \<Rightarrow> v)))
            \<in> set ?evs
          \<longleftrightarrow> map_of kvs ''status'' = Some (JStr ''placeholder_data'')"
    proof -
      let ?done = "Log INFO (''Processing completed: ''
              @ json_dumps w (processed_result now
                   (case map_of kvs ''game_id'' of None \<Rightarrow> JNull | Some v \<Rightarrow> v)))"
      have "?done \<notin> set rest" using N by blast
      moreover have "?done \<noteq> Log INFO (''Message received: '' @ json_dumps w (JObj kvs))"
        by simp
      moreover have "?done \<noteq> BasicAck (delivery_tag deliver)" by simp
      ultimately show ?thesis unfolding R
        by (simp del: append.simps list.inject char.inject event.inject)
    qed
    from 1 2 3 show ?thesis by simp
  qed
  have B: "\<forall>message. json_loads w body = Inr message \<and> \<not> is_dict message \<longrightarrow>
       BasicAck (delivery_tag deliver) \<notin> set ?evs
       \<and> BasicNack (delivery_tag deliver) False \<in> set ?evs"
    by (auto simp: process_message_ack_member process_message_nack_member)
  have A': "\<forall>kvs. json_loads w body = Inr (JObj kvs) \<longrightarrow>
       BasicAck (delivery_tag deliver) \<in> set ?evs
       \<and> hd (filter is_settlement ?evs) = BasicAck (delivery_tag deliver)
       \<and> (Log INFO (''Processing completed: ''
              @ json_dumps w (processed_result now
                   (case map_of kvs ''game_id'' of None \<Rightarrow> JNull | Some v \<Rightarrow> v)))
            \<in> set ?evs
          \<longleftrightarrow> map_of kvs ''status'' = Some (JStr ''placeholder_data''))"
    using A by (intro allI impI)
  show ?thesis using A' B by (rule conjI)
qed

theorem process_message_acks_every_dict_witness:
  "json_loads quiet_world (dumps_plain final_score) = Inr final_score
   \<and> BasicAck 7
       \<in> set (snd (process_message quiet_world ''2024-09-08T17:00:01'' quiet_channel
                     \<lparr>delivery_tag = 7\<rparr> () (dumps_plain final_score)))
   \<and> hd (filter is_settlement
            (snd (process_message quiet_world ''2024-09-08T17:00:01'' quiet_channel
                     \<lparr>delivery_tag = 7\<rparr> () (dumps_plain final_score))))
       = BasicAck 7"
proof -
  have L: "json_loads quiet_world (dumps_plain final_score)
             = Inr (JObj [(''game_id'', JStr ''nfl_2024_01''), (''status'', JStr ''final'')])"
    by (simp add: quiet_world_def loads_sample_def final_score_def dquote_def)
  have "BasicAck (delivery_tag \<lparr>delivery_tag = 7\<rparr>)
         \<in> set (snd (process_message quiet_world ''2024-09-08T17:00:01'' quiet_channel
                     \<lparr>delivery_tag = 7\<rparr> () (dumps_plain final_score)))
       \<and> hd (filter is_settlement
            (snd (process_message quiet_world ''2024-09-08T17:00:01'' quiet_channel
                     \<lparr>delivery_tag = 7\<rparr> () (dumps_plain final_score))))
         = BasicAck (delivery_tag \<lparr>delivery_tag = 7\<rparr>)"
    using process_message_acks_every_dict [of quiet_world "dumps_plain final_score"
        "\<lparr>delivery_tag = 7\<rparr>" "''2024-09-08T17:00:01''" quiet_channel "()"] L
    by blast
  moreover have "json_loads quiet_world (dumps_plain final_score) = Inr final_score"
    using L by (simp add: final_score_def)
  ultimately show ?thesis by simp
qed

text \<open>The claim as stated fails: the body \<open>[]\<close> is valid JSON and is rejected.\<close>

theorem process_message_rejects_json_array:
  "json_loads quiet_world ''[]'' = Inr (JArr [])
   \<and> filter is_settlement
        (snd (process_message quiet_world ''2024-09-08T17:00:01'' quiet_channel
                \<lparr>delivery_tag = 7\<rparr> () ''[]''))
      = [BasicNack 7 False]"
  by (simp add: process_message_def placeholder_processing_def quiet_world_def
      quiet_channel_def loads_sample_def reject_def Let_def no_attribute_get_def)

section \<open>Publish errors\<close>

text \<open>
  Claim C6. \<open>publish_message\<close> surfaces every publish error to its caller and does not
  retry: what \<open>basic_publish\<close> raises is what \<open>publish_message\<close> raises, after the error was
  logged when it is an \<open>Exception\<close>; the same holds for \<open>queue_declare\<close>, after which no
  publish is attempted; a call makes at most one \<open>basic_publish\<close>; and it returns exactly
  when both calls returned.
\<close>

theorem publish_message_surfaces_errors:
  "(\<forall>e. queue_declare channel = None \<and> basic_publish channel = Some e \<longrightarrow>
       fst (publish_message w channel queue_name message) = Raised e
       \<and> (is_Exception e \<longrightarrow>
            last (snd (publish_message w channel queue_name message))
              = Log ERROR (''Failed to publish message: '' @ str_exn e)))
   \<and> (\<forall>e. queue_declare channel = Some e \<longrightarrow>
       fst (publish_message w channel queue_name message) = Raised e
       \<and> filter is_publish (snd (publish_message w channel queue_name message)) = [])
   \<and> length (filter is_publish (snd (publish_message w channel queue_name message))) \<le> 1
   \<and> (fst (publish_message w channel queue_name message) = Returned ()
        \<longleftrightarrow> queue_declare channel = None \<and> basic_publish channel = None)"
  by (auto simp: publish_message_def publish_message_except_def Let_def split: option.splits)

theorem publish_message_surfaces_errors_witness:
  "queue_declare publish_failing_channel = None
   \<and> basic_publish publish_failing_channel = Some (Exception ''Channel is closed.'')
   \<and> is_Exception (Exception ''Channel is closed.'')
   \<and> fst (publish_message quiet_world publish_failing_channel ''game_events''
            (test_message quiet_world 1))
       = Raised (Exception ''Channel is closed.'')
   \<and> last (snd (publish_message quiet_world publish_failing_channel ''game_events''
                  (test_message quiet_world 1)))
       = Log ERROR ''Failed to publish message: Channel is closed.''"
proof -
  have A: "queue_declare publish_failing_channel = None
     \<and> basic_publish publish_failing_channel = Some (Exception ''Channel is closed.'')"
    by (simp add: publish_failing_channel_def quiet_channel_def)
  have E: "is_Exception (Exception ''Channel is closed.'')" by simp
  have "fst (publish_message quiet_world publish_failing_channel ''game_events''
            (test_message quiet_world 1))
       = Raised (Exception ''Channel is closed.'')
   \<and> last (snd (publish_message quiet_world publish_failing_channel ''game_events''
                  (test_message quiet_world 1)))
       = Log ERROR (''Failed to publish message: '' @ str_exn (Exception ''Channel is closed.''))"
    using publish_message_surfaces_errors [of publish_failing_channel quiet_world
        "''game_events''" "test_message quiet_world 1"] A E
    by blast
  with A E show ?thesis by simp
qed

section \<open>The calls of the two services\<close>

lemma calls_append: "calls (xs @ ys) = calls xs @ calls ys"
  by (simp add: calls_def)

lemma calls_Nil: "calls [] = []"
  by (simp add: calls_def)

lemma calls_Cons: "calls (ev # evs) = (if is_log ev then calls evs else ev # calls evs)"
  by (simp add: calls_def)

lemma calls_subset: "ev \<in> set (calls evs) \<longleftrightarrow> ev \<in> set evs \<and> \<not> is_log ev"
  by (simp add: calls_def)

lemma calls_retry_loop:
  "ev \<in> set (calls (snd (retry_loop fuel w h p u pw i d)))
    \<Longrightarrow> ev = Connect h p u pw 600 300 \<or> (\<exists>d'. ev = Sleep d')"
proof (induction fuel arbitrary: i d)
  case 0
  then show ?case by (simp add: calls_Nil)
next
  case (Suc fuel)
  show ?case
  proof (cases "BlockingConnection w i")
    case None
    with Suc.prems show ?thesis by (simp add: Let_def calls_append calls_Cons calls_Nil)
  next
    case (Some e)
    show ?thesis
    proof (cases "is_Exception e \<and> time_sleep d (backoff_sleep w i) = None")
      case True
      obtain r evs where R: "retry_loop fuel w h p u pw (Suc i) (min (d * 2) max_delay) = (r, evs)"
        by (cases "retry_loop fuel w h p u pw (Suc i) (min (d * 2) max_delay)")
      have "ev = Connect h p u pw 600 300 \<or> ev = Sleep d \<or> ev \<in> set (calls evs)"
        using Suc.prems Some True R by (simp add: Let_def calls_append calls_Cons calls_Nil)
      moreover have "ev \<in> set (calls evs) \<Longrightarrow> ev = Connect h p u pw 600 300 \<or> (\<exists>d'. ev = Sleep d')"
        using Suc.IH [of "Suc i" "min (d * 2) max_delay"] R by simp
      ultimately show ?thesis by blast
    next
      case False
      with Suc.prems Some show ?thesis
        by (auto simp: Let_def calls_append calls_Cons calls_Nil split: option.splits if_splits)
    qed
  qed
qed

lemma calls_create_rabbitmq_connection:
  "ev \<in> set (calls (snd (create_rabbitmq_connection fuel w env)))
    \<Longrightarrow> (\<exists>p. ev = Connect (RABBITMQ_HOST env) p (RABBITMQ_USER env) (RABBITMQ_PASS env) 600 300)
        \<or> (\<exists>d. ev = Sleep d)"
proof (cases "RABBITMQ_PORT env")
  case (Inl e)
  assume "ev \<in> set (calls (snd (create_rabbitmq_connection fuel w env)))"
  with Inl show ?thesis by (simp add: create_rabbitmq_connection_def calls_Nil)
next
  case (Inr port)
  assume "ev \<in> set (calls (snd (create_rabbitmq_connection fuel w env)))"
  with Inr have "ev \<in> set (calls (snd (retry_loop fuel w (RABBITMQ_HOST env) port
                     (RABBITMQ_USER env) (RABBITMQ_PASS env) 0 1)))"
    by (simp add: create_rabbitmq_connection_def)
  from calls_retry_loop [OF this] show ?thesis by blast
qed

lemma calls_publish_message:
  "calls (snd (publish_message w channel queue_name message)) =
     QueueDeclare queue_name True #
     (if queue_declare channel = None
      then [BasicPublish [] queue_name (json_dumps w message) 2] else [])"
  by (simp add: publish_message_def publish_message_except_def Let_def calls_append calls_Cons
      calls_Nil split: option.splits)

lemma calls_publish_loop:
  "ev \<in> set (calls (snd (publish_loop fuel w q interval c)))
    \<Longrightarrow> ev = Sleep interval \<or> ev = QueueDeclare q True
        \<or> (\<exists>n\<ge>c. ev = BasicPublish [] q (json_dumps w (test_message w n)) 2)"
proof (induction fuel arbitrary: c)
  case 0
  then show ?case by (simp add: calls_Nil)
next
  case (Suc fuel)
  obtain r evs where P: "publish_message w (channel_at w c) q (test_message w c) = (r, evs)"
    by (cases "publish_message w (channel_at w c) q (test_message w c)")
  have C: "calls evs = QueueDeclare q True #
     (if queue_declare (channel_at w c) = None
      then [BasicPublish [] q (json_dumps w (test_message w c)) 2] else [])"
    using calls_publish_message [of w "channel_at w c" q "test_message w c"] P by simp
  have here: "ev \<in> set (calls evs) \<Longrightarrow> ?case"
    unfolding C by (auto split: if_splits)
  obtain r' evs' where L: "publish_loop fuel w q interval (Suc c) = (r', evs')"
    by (cases "publish_loop fuel w q interval (Suc c)")
  have later: "ev \<in> set (calls evs') \<Longrightarrow> ?case"
  proof -
    assume "ev \<in> set (calls evs')"
    then have "ev = Sleep interval \<or> ev = QueueDeclare q True
        \<or> (\<exists>n\<ge>Suc c. ev = BasicPublish [] q (json_dumps w (test_message w n)) 2)"
      using Suc.IH [of "Suc c"] L by simp
    then show ?thesis by (metis Suc_leD)
  qed
  have "ev \<in> set (calls evs) \<or> ev = Sleep interval \<or> ev \<in> set (calls evs')"
    using Suc.prems P L
    by (cases r)
       (auto simp: Let_def calls_append calls_Cons calls_Nil split: option.splits)
  with here later show ?case by blast
qed

lemma calls_finally_clause: "calls (finally_clause w service) = [Close]"
  by (simp add: finally_clause_def calls_append calls_Cons calls_Nil split: option.splits)

lemma main_ingestor_calls_cases:
  "calls (snd (main_ingestor fuel w env)) = []
   \<or> calls (snd (main_ingestor fuel w env)) = calls (snd (create_rabbitmq_connection fuel w env))
   \<or> (\<exists>e. connection_channel w = Some e)
       \<and> calls (snd (main_ingestor fuel w env))
           = calls (snd (create_rabbitmq_connection fuel w env)) @ [Channel]
   \<or> (\<exists>interval. INGESTOR_INTERVAL env = Inr interval \<and> connection_channel w = None \<and>
        (calls (snd (main_ingestor fuel w env))
           = calls (snd (create_rabbitmq_connection fuel w env)) @ [Channel]
             @ calls (snd (publish_loop fuel w (RABBITMQ_QUEUE env) interval 1))
         \<and> fst (main_ingestor fuel w env) = Running
         \<or> calls (snd (main_ingestor fuel w env))
           = calls (snd (create_rabbitmq_connection fuel w env)) @ [Channel]
             @ calls (snd (publish_loop fuel w (RABBITMQ_QUEUE env) interval 1)) @ [Close]
         \<and> fst (main_ingestor fuel w env) \<noteq> Running))"
proof (cases "setup_logging env")
  case (Some e)
  then show ?thesis by (simp add: main_ingestor_def calls_Nil)
next
  case None
  note lg = None
  show ?thesis
  proof (cases "INGESTOR_INTERVAL env")
    case (Inl e)
    with lg show ?thesis by (simp add: main_ingestor_def Let_def calls_Cons calls_Nil)
  next
    case (Inr interval)
    obtain r evs where C: "create_rabbitmq_connection fuel w env = (r, evs)"
      by (cases "create_rabbitmq_connection fuel w env")
    show ?thesis
    proof (cases "\<exists>c. r = Returned c")
      case False
      with lg Inr C show ?thesis
        by (cases r) (simp_all add: main_ingestor_def Let_def calls_append calls_Cons calls_Nil)
    next
      case True
      then obtain c where r: "r = Returned c" by blast
      show ?thesis
      proof (cases "connection_channel w")
        case (Some e)
        with lg Inr C r show ?thesis
          by (simp add: main_ingestor_def Let_def calls_append calls_Cons calls_Nil)
      next
        case None
        obtain r' evs' where L: "publish_loop fuel w (RABBITMQ_QUEUE env) interval 1 = (r', evs')"
          by (cases "publish_loop fuel w (RABBITMQ_QUEUE env) interval 1")
        have "calls (snd (main_ingestor fuel w env)) = calls evs @ [Channel] @ calls evs'
                \<and> fst (main_ingestor fuel w env) = Running
            \<or> calls (snd (main_ingestor fuel w env)) = calls evs @ [Channel] @ calls evs' @ [Close]
                \<and> fst (main_ingestor fuel w env) \<noteq> Running"
          using lg Inr C r None L
          by (cases r')
             (simp_all add: main_ingestor_def Let_def calls_append calls_Cons calls_Nil
                calls_finally_clause)
        with Inr None C L show ?thesis by simp
      qed
    qed
  qed
qed

lemma main_ingestor_calls:
  assumes "ev \<in> set (calls (snd (main_ingestor fuel w env)))"
  shows "(\<exists>p. ev = Connect (RABBITMQ_HOST env) p (RABBITMQ_USER env) (RABBITMQ_PASS env) 600 300)
       \<or> (\<exists>d. ev = Sleep d) \<or> ev = Channel \<or> ev = Close
       \<or> ev = QueueDeclare (RABBITMQ_QUEUE env) True
       \<or> (\<exists>n\<ge>1. ev = BasicPublish [] (RABBITMQ_QUEUE env) (json_dumps w (test_message w n)) 2)"
proof -
  have "ev \<in> set (calls (snd (create_rabbitmq_connection fuel w env))) \<or> ev = Channel \<or> ev = Close
      \<or> (\<exists>interval. ev \<in> set (calls (snd (publish_loop fuel w (RABBITMQ_QUEUE env) interval 1))))"
    using assms main_ingestor_calls_cases [of fuel w env] by auto
  then show ?thesis
    using calls_create_rabbitmq_connection [of ev fuel w env]
      calls_publish_loop [of ev fuel w "RABBITMQ_QUEUE env" _ 1]
    by blast
qed

text \<open>Once \<open>connection.channel()\<close> has returned, every way out of the ingestor's \<open>main\<close>
  calls \<open>connection.close()\<close> exactly once, as its last call to the outside: nothing is
  published after the exception that ended the loop.\<close>

lemma main_ingestor_closes_last:
  assumes "fst (main_ingestor fuel w env) \<noteq> Running" and "connection_channel w = None"
    and "Channel \<in> set (snd (main_ingestor fuel w env))"
  shows "\<exists>before. calls (snd (main_ingestor fuel w env)) = before @ [Close]
           \<and> Close \<notin> set before"
proof -
  have Ch: "Channel \<in> set (calls (snd (main_ingestor fuel w env)))"
    using assms(3) by (simp add: calls_subset)
  have nC: "Channel \<notin> set (calls (snd (create_rabbitmq_connection fuel w env)))"
    using calls_create_rabbitmq_connection [of Channel fuel w env] by auto
  have nClose: "Close \<notin> set (calls (snd (create_rabbitmq_connection fuel w env)))"
    using calls_create_rabbitmq_connection [of Close fuel w env] by auto
  have nLoop: "Close \<notin> set (calls (snd (publish_loop fuel w q interval 1)))" for q interval
    using calls_publish_loop [of Close fuel w q interval 1] by auto
  from main_ingestor_calls_cases [of fuel w env] Ch nC assms(1,2)
  obtain interval where "calls (snd (main_ingestor fuel w env))
           = calls (snd (create_rabbitmq_connection fuel w env)) @ [Channel]
             @ calls (snd (publish_loop fuel w (RABBITMQ_QUEUE env) interval 1)) @ [Close]"
    by auto
  then have "calls (snd (main_ingestor fuel w env))
           = (calls (snd (create_rabbitmq_connection fuel w env)) @ [Channel]
             @ calls (snd (publish_loop fuel w (RABBITMQ_QUEUE env) interval 1))) @ [Close]"
    by simp
  moreover have "Close \<notin> set (calls (snd (create_rabbitmq_connection fuel w env)) @ [Channel]
             @ calls (snd (publish_loop fuel w (RABBITMQ_QUEUE env) interval 1)))"
    using nClose nLoop by simp
  ultimately show ?thesis by blast
qed

lemma process_message_event_kinds:
  assumes "ev \<in> set (snd (process_message w now ch deliver properties body))"
  shows "is_log ev \<or> ev = BasicAck (delivery_tag deliver)
       \<or> ev = BasicNack (delivery_tag deliver) False"
proof (cases "json_loads w body")
  case (Inl e)
  obtain rest where R: "snd (process_message_except ch (delivery_tag deliver) e []) = [] @ rest"
    and N: "\<forall>ev\<in>set rest. ev = BasicNack (delivery_tag deliver) False \<or> (\<exists>m. ev = Log ERROR m)"
    using except_events [of ch "delivery_tag deliver" e "[]"] by blast
  from assms Inl R have "ev \<in> set rest" by (simp add: process_message_def)
  with N show ?thesis by auto
next
  case (Inr message)
  obtain r logged where P: "placeholder_processing w now message = (r, logged)"
    by (cases "placeholder_processing w now message")
  have Lg: "\<forall>ev\<in>set logged. is_log ev"
    using P by (auto simp: placeholder_processing_def Let_def split: sum.splits if_splits)
  show ?thesis
  proof (cases r)
    case (Some e)
    obtain rest where R: "snd (process_message_except ch (delivery_tag deliver) e logged) = logged @ rest"
      and N: "\<forall>ev\<in>set rest. ev = BasicNack (delivery_tag deliver) False \<or> (\<exists>m. ev = Log ERROR m)"
      using except_events [of ch "delivery_tag deliver" e logged] by blast
    from assms Inr P Some R have "ev \<in> set logged \<or> ev \<in> set rest"
      by (simp add: process_message_def)
    with N Lg show ?thesis by auto
  next
    case None
    show ?thesis
    proof (cases "basic_ack ch")
      case None
      with assms Inr P \<open>r = None\<close> have "ev \<in> set logged \<or> ev = BasicAck (delivery_tag deliver)"
        by (auto simp: process_message_def Let_def)
      with Lg show ?thesis by auto
    next
      case (Some e)
      obtain rest where R: "snd (process_message_except ch (delivery_tag deliver) e
                 (logged @ [BasicAck (delivery_tag deliver)]))
               = (logged @ [BasicAck (delivery_tag deliver)]) @ rest"
        and N: "\<forall>ev\<in>set rest. ev = BasicNack (delivery_tag deliver) False \<or> (\<exists>m. ev = Log ERROR m)"
        using except_events [of ch "delivery_tag deliver" e "logged @ [BasicAck (delivery_tag deliver)]"]
        by blast
      from assms Inr P \<open>r = None\<close> Some R
      have "ev \<in> set logged \<or> ev = BasicAck (delivery_tag deliver) \<or> ev \<in> set rest"
        by (auto simp: process_message_def Let_def)
      with N Lg show ?thesis by auto
    qed
  qed
qed

lemma calls_start_consuming:
  "ev \<in> set (calls (snd (start_consuming fuel w k)))
    \<Longrightarrow> (\<exists>t. ev = BasicAck t) \<or> (\<exists>t. ev = BasicNack t False)"
proof (induction fuel arbitrary: k)
  case 0
  then show ?case by (simp add: calls_Nil)
next
  case (Suc fuel)
  show ?case
  proof (cases "deliveries w k")
    case (Stopped x)
    with Suc.prems show ?thesis by (cases x) (simp_all add: calls_Nil)
  next
    case (Delivery tag body)
    obtain r evs where P: "process_message w (utcnow_isoformat w k) (channel_at w (Suc k))
                  \<lparr>delivery_tag = tag\<rparr> () body = (r, evs)"
      by (cases "process_message w (utcnow_isoformat w k) (channel_at w (Suc k))
                  \<lparr>delivery_tag = tag\<rparr> () body")
    obtain r' evs' where S: "start_consuming fuel w (Suc k) = (r', evs')"
      by (cases "start_consuming fuel w (Suc k)")
    have "ev \<in> set (calls evs) \<or> ev \<in> set (calls evs')"
      using Suc.prems Delivery P S by (cases r) (auto simp: calls_append)
    moreover have "ev \<in> set (calls evs) \<Longrightarrow> ?thesis"
    proof -
      assume "ev \<in> set (calls evs)"
      then have "ev \<in> set evs" "\<not> is_log ev" by (simp_all add: calls_subset)
      then show ?thesis
        using process_message_event_kinds [of ev w "utcnow_isoformat w k" "channel_at w (Suc k)"
            "\<lparr>delivery_tag = tag\<rparr>" "()" body] P
        by auto
    qed
    moreover have "ev \<in> set (calls evs') \<Longrightarrow> ?thesis"
      using Suc.IH [of "Suc k"] S by simp
    ultimately show ?thesis by blast
  qed
qed

lemma calls_consume_cases:
  "(\<exists>e. queue_declare channel = Some e)
     \<and> calls (snd (consume fuel w channel q)) = [QueueDeclare q True]
   \<or> (\<exists>e. basic_consume channel = Some e)
     \<and> calls (snd (consume fuel w channel q)) = [QueueDeclare q True, BasicConsume q]
   \<or> (\<exists>e. basic_qos channel = Some e)
     \<and> calls (snd (consume fuel w channel q)) = [QueueDeclare q True, BasicConsume q, BasicQos 1]
   \<or> calls (snd (consume fuel w channel q))
       = [QueueDeclare q True, BasicConsume q, BasicQos 1, StartConsuming]
         @ calls (snd (start_consuming fuel w 0))"
  by (cases "start_consuming fuel w 0")
     (simp add: consume_def Let_def calls_append calls_Cons calls_Nil split: option.splits)

lemma calls_consume:
  assumes "ev \<in> set (calls (snd (consume fuel w channel q)))"
  shows "ev = QueueDeclare q True \<or> ev = BasicConsume q \<or> ev = BasicQos 1 \<or> ev = StartConsuming
       \<or> (\<exists>t. ev = BasicAck t) \<or> (\<exists>t. ev = BasicNack t False)"
proof -
  have "ev = QueueDeclare q True \<or> ev = BasicConsume q \<or> ev = BasicQos 1 \<or> ev = StartConsuming
       \<or> ev \<in> set (calls (snd (start_consuming fuel w 0)))"
    using assms calls_consume_cases [of channel fuel w q] by auto
  then show ?thesis using calls_start_consuming [of ev fuel w 0] by blast
qed

lemma main_processor_calls_cases:
  "calls (snd (main_processor fuel w env)) = []
   \<or> calls (snd (main_processor fuel w env)) = calls (snd (create_rabbitmq_connection fuel w env))
   \<or> (\<exists>e. connection_channel w = Some e)
       \<and> calls (snd (main_processor fuel w env))
           = calls (snd (create_rabbitmq_connection fuel w env)) @ [Channel]
   \<or> connection_channel w = None \<and>
        (calls (snd (main_processor fuel w env))
           = calls (snd (create_rabbitmq_connection fuel w env)) @ [Channel]
             @ calls (snd (consume fuel w (channel_at w 0) (RABBITMQ_QUEUE env)))
         \<and> fst (main_processor fuel w env) = Running
         \<or> calls (snd (main_processor fuel w env))
           = calls (snd (create_rabbitmq_connection fuel w env)) @ [Channel]
             @ calls (snd (consume fuel w (channel_at w 0) (RABBITMQ_QUEUE env))) @ [Close]
         \<and> fst (main_processor fuel w env) \<noteq> Running
         \<or> calls (snd (main_processor fuel w env))
           = calls (snd (create_rabbitmq_connection fuel w env)) @ [Channel]
             @ calls (snd (consume fuel w (channel_at w 0) (RABBITMQ_QUEUE env)))
             @ [StopConsuming, Close]
         \<and> fst (main_processor fuel w env) \<noteq> Running
         \<and> fst (consume fuel w (channel_at w 0) (RABBITMQ_QUEUE env)) = Raised KeyboardInterrupt)"
proof (cases "setup_logging env")
  case (Some e)
  then show ?thesis by (simp add: main_processor_def calls_Nil)
next
  case None
  note lg = None
  obtain r evs where C: "create_rabbitmq_connection fuel w env = (r, evs)"
    by (cases "create_rabbitmq_connection fuel w env")
  show ?thesis
  proof (cases "\<exists>c. r = Returned c")
    case False
    with lg C show ?thesis
      by (cases r) (simp_all add: main_processor_def Let_def calls_append calls_Cons calls_Nil)
  next
    case True
    then obtain c where r: "r = Returned c" by blast
    show ?thesis
    proof (cases "connection_channel w")
      case (Some e)
      with lg C r show ?thesis
        by (simp add: main_processor_def Let_def calls_append calls_Cons calls_Nil)
    next
      case None
      obtain r' evs' where L: "consume fuel w (channel_at w 0) (RABBITMQ_QUEUE env) = (r', evs')"
        by (cases "consume fuel w (channel_at w 0) (RABBITMQ_QUEUE env)")
      have "calls (snd (main_processor fuel w env)) = calls evs @ [Channel] @ calls evs'
                \<and> fst (main_processor fuel w env) = Running
          \<or> calls (snd (main_processor fuel w env)) = calls evs @ [Channel] @ calls evs' @ [Close]
                \<and> fst (main_processor fuel w env) \<noteq> Running
          \<or> calls (snd (main_processor fuel w env))
                = calls evs @ [Channel] @ calls evs' @ [StopConsuming, Close]
                \<and> fst (main_processor fuel w env) \<noteq> Running \<and> r' = Raised KeyboardInterrupt"
        using lg C r None L
        by (cases r')
           (simp_all add: main_processor_def Let_def calls_append calls_Cons calls_Nil
              calls_finally_clause split: option.splits)
      with None C L show ?thesis by simp
    qed
  qed
qed

lemma main_processor_calls:
  assumes "ev \<in> set (calls (snd (main_processor fuel w env)))"
  shows "(\<exists>p. ev = Connect (RABBITMQ_HOST env) p (RABBITMQ_USER env) (RABBITMQ_PASS env) 600 300)
       \<or> (\<exists>d. ev = Sleep d) \<or> ev = Channel \<or> ev = Close \<or> ev = StopConsuming
       \<or> ev = QueueDeclare (RABBITMQ_QUEUE env) True \<or> ev = BasicConsume (RABBITMQ_QUEUE env)
       \<or> ev = BasicQos 1 \<or> ev = StartConsuming
       \<or> (\<exists>t. ev = BasicAck t) \<or> (\<exists>t. ev = BasicNack t False)"
proof -
  have "ev \<in> set (calls (snd (create_rabbitmq_connection fuel w env))) \<or> ev = Channel \<or> ev = Close
      \<or> ev = StopConsuming
      \<or> ev \<in> set (calls (snd (consume fuel w (channel_at w 0) (RABBITMQ_QUEUE env))))"
    using assms main_processor_calls_cases [of fuel w env] by auto
  then show ?thesis
    using calls_create_rabbitmq_connection [of ev fuel w env]
      calls_consume [of ev fuel w "channel_at w 0" "RABBITMQ_QUEUE env"]
    by blast
qed

text \<open>The same for the processor: once the channel is open, every way out of \<open>main\<close>
  calls \<open>connection.close()\<close> exactly once and last, after \<open>stop_consuming\<close> on an
  interrupt.\<close>

lemma main_processor_closes_last:
  assumes "fst (main_processor fuel w env) \<noteq> Running" and "connection_channel w = None"
    and "Channel \<in> set (snd (main_processor fuel w env))"
  shows "\<exists>before. calls (snd (main_processor fuel w env)) = before @ [Close]
           \<and> Close \<notin> set before"
proof -
  let ?conn = "calls (snd (create_rabbitmq_connection fuel w env))"
  let ?cons = "calls (snd (consume fuel w (channel_at w 0) (RABBITMQ_QUEUE env)))"
  have Ch: "Channel \<in> set (calls (snd (main_processor fuel w env)))"
    using assms(3) by (simp add: calls_subset)
  have nC: "Channel \<notin> set ?conn"
    using calls_create_rabbitmq_connection [of Channel fuel w env] by auto
  have nClose: "Close \<notin> set ?conn"
    using calls_create_rabbitmq_connection [of Close fuel w env] by auto
  have nCons: "Close \<notin> set ?cons"
    using calls_consume [of Close fuel w "channel_at w 0" "RABBITMQ_QUEUE env"] by auto
  from main_processor_calls_cases [of fuel w env] Ch nC assms(1,2)
  have "calls (snd (main_processor fuel w env)) = (?conn @ [Channel] @ ?cons) @ [Close]
      \<or> calls (snd (main_processor fuel w env)) = (?conn @ [Channel] @ ?cons @ [StopConsuming]) @ [Close]"
    by auto
  moreover have "Close \<notin> set (?conn @ [Channel] @ ?cons)"
    using nClose nCons by simp
  moreover have "Close \<notin> set (?conn @ [Channel] @ ?cons @ [StopConsuming])"
    using nClose nCons by simp
  ultimately show ?thesis by blast
qed

section \<open>What the ingestor publishes\<close>

text \<open>
  Claim C9. Every body the ingestor hands to \<open>basic_publish\<close> is \<open>json.dumps\<close> of the
  placeholder message of some step \<open>n\<close> of its loop, counted from 1, and that message is
  an object with exactly the fields \<open>game_id\<close>, \<open>timestamp\<close>, \<open>home_team\<close>, \<open>away_team\<close>
  and \<open>status\<close>, all strings, and \<open>message_number\<close>, an integer, in this order; its
  timestamp is \<open>datetime.utcnow().isoformat()\<close> followed by \<open>Z\<close> and its number is the
  counter. (\<open>json.dumps\<close> returns ASCII text, which pika sends as it is.)
\<close>

theorem ingestor_message_envelope:
  "(\<forall>exchange routing_key body delivery_mode.
      BasicPublish exchange routing_key body delivery_mode \<in> set (snd (main_ingestor fuel w env))
      \<longrightarrow> (\<exists>n\<ge>1. body = json_dumps w (test_message w n)))
   \<and> (\<forall>n. fields_of (test_message w n)
            = [(''game_id'', TStr), (''timestamp'', TStr), (''home_team'', TStr),
               (''away_team'', TStr), (''status'', TStr), (''message_number'', TInt)]
          \<and> dict_get (test_message w n) ''timestamp''
            = Inr (JStr (utcnow_isoformat w n @ ''Z''))
          \<and> dict_get (test_message w n) ''message_number'' = Inr (JInt (int n)))"
proof -
  have A: "\<exists>n\<ge>1. body = json_dumps w (test_message w n)"
    if M: "BasicPublish exchange routing_key body delivery_mode \<in> set (snd (main_ingestor fuel w env))"
    for exchange routing_key body delivery_mode
  proof -
    have "BasicPublish exchange routing_key body delivery_mode
            \<in> set (calls (snd (main_ingestor fuel w env)))"
      using M by (simp add: calls_subset)
    from main_ingestor_calls [OF this] show ?thesis by auto
  qed
  have B: "fields_of (test_message w n)
            = [(''game_id'', TStr), (''timestamp'', TStr), (''home_team'', TStr),
               (''away_team'', TStr), (''status'', TStr), (''message_number'', TInt)]
          \<and> dict_get (test_message w n) ''timestamp''
            = Inr (JStr (utcnow_isoformat w n @ ''Z''))
          \<and> dict_get (test_message w n) ''message_number'' = Inr (JInt (int n))" for n
    by (simp add: test_message_def)
  have A': "\<forall>exchange routing_key body delivery_mode.
      BasicPublish exchange routing_key body delivery_mode \<in> set (snd (main_ingestor fuel w env))
      \<longrightarrow> (\<exists>n\<ge>1. body = json_dumps w (test_message w n))"
    using A by (intro allI impI)
  have B': "\<forall>n. fields_of (test_message w n)
            = [(''game_id'', TStr), (''timestamp'', TStr), (''home_team'', TStr),
               (''away_team'', TStr), (''status'', TStr), (''message_number'', TInt)]
          \<and> dict_get (test_message w n) ''timestamp''
            = Inr (JStr (utcnow_isoformat w n @ ''Z''))
          \<and> dict_get (test_message w n) ''message_number'' = Inr (JInt (int n))"
    using B by (intro allI)
  show ?thesis using A' B' by (rule conjI)
qed

lemma interrupted_run:
  "calls (snd (main_ingestor 3 interrupted_world default_environ))
     = [Connect ''localhost'' 5672 ''guest'' ''guest'' 600 300, Channel,
        QueueDeclare ''game_events'' True,
        BasicPublish [] ''game_events'' (dumps_plain (test_message interrupted_world 1)) 2,
        Sleep 10,
        QueueDeclare ''game_events'' True,
        BasicPublish [] ''game_events'' (dumps_plain (test_message interrupted_world 2)) 2,
        Sleep 10,
        Close]"
  by (simp add: main_ingestor_def setup_logging_def create_rabbitmq_connection_def
      publish_message_def interrupted_world_def quiet_world_def quiet_channel_def
      default_environ_def finally_clause_def time_sleep_def calls_def Let_def eval_nat_numeral
      del: dumps_plain.simps)

theorem ingestor_message_envelope_witness:
  "BasicPublish [] ''game_events'' (dumps_plain (test_message interrupted_world 2)) 2
     \<in> set (snd (main_ingestor 3 interrupted_world default_environ))
   \<and> (\<exists>n\<ge>1. dumps_plain (test_message interrupted_world 2)
               = json_dumps interrupted_world (test_message interrupted_world n))"
proof -
  have "BasicPublish [] ''game_events'' (dumps_plain (test_message interrupted_world 2)) 2
     \<in> set (calls (snd (main_ingestor 3 interrupted_world default_environ)))"
    unfolding interrupted_run by simp
  then have M: "BasicPublish [] ''game_events'' (dumps_plain (test_message interrupted_world 2)) 2
     \<in> set (snd (main_ingestor 3 interrupted_world default_environ))"
    by (simp add: calls_subset)
  have "\<forall>exchange routing_key body delivery_mode.
      BasicPublish exchange routing_key body delivery_mode
        \<in> set (snd (main_ingestor 3 interrupted_world default_environ))
      \<longrightarrow> (\<exists>n\<ge>1. body = json_dumps interrupted_world (test_message interrupted_world n))"
    using ingestor_message_envelope [of 3 interrupted_world default_environ]
    by (rule conjunct1)
  with M have "\<exists>n\<ge>1. dumps_plain (test_message interrupted_world 2)
               = json_dumps interrupted_world (test_message interrupted_world n)"
    by blast
  with M show ?thesis by (rule conjI)
qed

section \<open>Durable queue, persistent messages\<close>

lemma broker_queue_declare_idempotent:
  "broker_queue_declare b queue durable = Inr b1
    \<Longrightarrow> broker_queue_declare b1 queue durable = Inr b1"
  by (auto simp: broker_queue_declare_def split: option.splits if_splits)

lemma broker_declares_same_queue:
  "(\<forall>queue durable. QueueDeclare queue durable \<in> set evs \<longrightarrow> queue = q \<and> durable)
    \<Longrightarrow> b q = None \<or> b q = Some True
    \<Longrightarrow> \<exists>b'. broker_declares b evs = Inr b'"
proof (induction evs arbitrary: b)
  case Nil
  then show ?case by simp
next
  case (Cons ev evs)
  have rest: "\<forall>queue durable. QueueDeclare queue durable \<in> set evs \<longrightarrow> queue = q \<and> durable"
    using Cons.prems(1) by (meson list.set_intros(2))
  show ?case
  proof (cases "\<exists>queue durable. ev = QueueDeclare queue durable")
    case True
    then have ev: "ev = QueueDeclare q True" using Cons.prems(1) by auto
    show ?thesis
    proof (cases "b q")
      case None
      then have "broker_declares b (ev # evs) = broker_declares (b(q \<mapsto> True)) evs"
        using ev by (simp add: broker_queue_declare_def)
      moreover have "(b(q \<mapsto> True)) q = None \<or> (b(q \<mapsto> True)) q = Some True" by simp
      then have "\<exists>b'. broker_declares (b(q \<mapsto> True)) evs = Inr b'"
        using Cons.IH [where b = "b(q \<mapsto> True)", OF rest] by blast
      ultimately show ?thesis by simp
    next
      case (Some d)
      with Cons.prems(2) have "b q = Some True" by simp
      then have "broker_declares b (ev # evs) = broker_declares b evs"
        using ev by (simp add: broker_queue_declare_def)
      with Cons.IH [where b = b, OF rest Cons.prems(2)] show ?thesis by simp
    qed
  next
    case False
    then have "broker_declares b (ev # evs) = broker_declares b evs" by (cases ev) simp_all
    with Cons.IH [where b = b, OF rest Cons.prems(2)] show ?thesis by simp
  qed
qed

lemma main_ingestor_declares:
  "QueueDeclare queue durable \<in> set (snd (main_ingestor fuel w env))
    \<Longrightarrow> queue = RABBITMQ_QUEUE env \<and> durable"
proof -
  assume "QueueDeclare queue durable \<in> set (snd (main_ingestor fuel w env))"
  then have "QueueDeclare queue durable \<in> set (calls (snd (main_ingestor fuel w env)))"
    by (simp add: calls_subset)
  from main_ingestor_calls [OF this] show ?thesis by auto
qed

lemma main_processor_declares:
  "QueueDeclare queue durable \<in> set (snd (main_processor fuel w env))
    \<Longrightarrow> queue = RABBITMQ_QUEUE env \<and> durable"
proof -
  assume "QueueDeclare queue durable \<in> set (snd (main_processor fuel w env))"
  then have "QueueDeclare queue durable \<in> set (calls (snd (main_processor fuel w env)))"
    by (simp add: calls_subset)
  from main_processor_calls [OF this] show ?thesis by auto
qed

lemma main_ingestor_publishes:
  "BasicPublish exchange routing_key body delivery_mode \<in> set (snd (main_ingestor fuel w env))
    \<Longrightarrow> delivery_mode = 2 \<and> routing_key = RABBITMQ_QUEUE env \<and> exchange = []"
proof -
  assume "BasicPublish exchange routing_key body delivery_mode \<in> set (snd (main_ingestor fuel w env))"
  then have "BasicPublish exchange routing_key body delivery_mode
      \<in> set (calls (snd (main_ingestor fuel w env)))"
    by (simp add: calls_subset)
  from main_ingestor_calls [OF this] show ?thesis by auto
qed

lemma publish_message_returned:
  "queue_declare channel = None \<Longrightarrow> basic_publish channel = None
    \<Longrightarrow> fst (publish_message w channel q m) = Returned ()"
  by (simp add: publish_message_def Let_def)

lemma publish_loop_first:
  "ev \<in> set (calls (snd (publish_message w (channel_at w c) q (test_message w c))))
    \<Longrightarrow> ev \<in> set (calls (snd (publish_loop (Suc fuel) w q interval c)))"
proof -
  assume A: "ev \<in> set (calls (snd (publish_message w (channel_at w c) q (test_message w c))))"
  obtain r evs where P: "publish_message w (channel_at w c) q (test_message w c) = (r, evs)"
    by (cases "publish_message w (channel_at w c) q (test_message w c)")
  obtain r' evs' where L: "publish_loop fuel w q interval (Suc c) = (r', evs')"
    by (cases "publish_loop fuel w q interval (Suc c)")
  from A P have "ev \<in> set (calls evs)" by simp
  then show ?thesis using P L
    by (cases r) (simp_all add: Let_def calls_append split: option.splits)
qed

lemma publish_loop_later:
  assumes "step_succeeds w interval c"
    and "ev \<in> set (calls (snd (publish_loop fuel w q interval (Suc c))))"
  shows "ev \<in> set (calls (snd (publish_loop (Suc fuel) w q interval c)))"
proof -
  obtain r evs where P: "publish_message w (channel_at w c) q (test_message w c) = (r, evs)"
    by (cases "publish_message w (channel_at w c) q (test_message w c)")
  have r: "r = Returned ()"
    using publish_message_returned [of "channel_at w c" w q "test_message w c"] assms(1) P
    by (simp add: step_succeeds_def)
  obtain r' evs' where L: "publish_loop fuel w q interval (Suc c) = (r', evs')"
    by (cases "publish_loop fuel w q interval (Suc c)")
  have S: "time_sleep interval (interval_sleep w c) = None"
    using assms(1) by (simp add: step_succeeds_def)
  from assms(2) L have "ev \<in> set (calls evs')" by simp
  then show ?thesis using P r L S by (simp add: Let_def calls_append calls_Cons)
qed

lemma publish_loop_publishes:
  "\<forall>k. c \<le> k \<and> k < n \<longrightarrow> step_succeeds w interval k \<Longrightarrow> c \<le> n \<Longrightarrow> n < c + fuel
    \<Longrightarrow> queue_declare (channel_at w n) = None
    \<Longrightarrow> BasicPublish [] q (json_dumps w (test_message w n)) 2
          \<in> set (calls (snd (publish_loop fuel w q interval c)))"
proof (induction fuel arbitrary: c)
  case 0
  then show ?case by simp
next
  case (Suc fuel)
  show ?case
  proof (cases "n = c")
    case True
    have "BasicPublish [] q (json_dumps w (test_message w c)) 2
            \<in> set (calls (snd (publish_message w (channel_at w c) q (test_message w c))))"
      using Suc.prems(4) True by (simp add: calls_publish_message)
    from publish_loop_first [OF this] True show ?thesis by simp
  next
    case False
    then have lt: "c < n" using Suc.prems(2) by simp
    then have ok: "step_succeeds w interval c" using Suc.prems(1) by simp
    have "\<forall>k. Suc c \<le> k \<and> k < n \<longrightarrow> step_succeeds w interval k"
      using Suc.prems(1) by simp
    moreover have "Suc c \<le> n" using lt by simp
    moreover have "n < Suc c + fuel" using Suc.prems(3) by simp
    ultimately have "BasicPublish [] q (json_dumps w (test_message w n)) 2
          \<in> set (calls (snd (publish_loop fuel w q interval (Suc c))))"
      using Suc.prems(4) by (rule Suc.IH)
    from publish_loop_later [OF ok this] show ?thesis .
  qed
qed

lemma main_ingestor_loop_calls:
  assumes "setup_logging env = None" and "INGESTOR_INTERVAL env = Inr interval"
    and "fst (create_rabbitmq_connection fuel w env) = Returned c"
    and "connection_channel w = None"
    and "ev \<in> set (calls (snd (publish_loop fuel w (RABBITMQ_QUEUE env) interval 1)))"
  shows "ev \<in> set (snd (main_ingestor fuel w env))"
proof -
  let ?q = "RABBITMQ_QUEUE env"
  obtain evs where C: "create_rabbitmq_connection fuel w env = (Returned c, evs)"
    using assms(3) by (cases "create_rabbitmq_connection fuel w env") simp
  obtain r' evs' where P: "publish_loop fuel w ?q interval 1 = (r', evs')"
    by (cases "publish_loop fuel w ?q interval 1")
  from assms(5) P have "ev \<in> set (calls evs')" by simp
  then have "ev \<in> set (calls (snd (main_ingestor fuel w env)))"
    using assms(1,2,4) C P
    by (cases r')
       (simp_all add: main_ingestor_def Let_def calls_append calls_Cons calls_Nil
          calls_finally_clause)
  then show ?thesis by (simp add: calls_subset)
qed

lemma main_ingestor_publishes_message:
  assumes "setup_logging env = None" and "INGESTOR_INTERVAL env = Inr interval"
    and "fst (create_rabbitmq_connection fuel w env) = Returned c"
    and "connection_channel w = None"
    and "\<forall>k. 1 \<le> k \<and> k < n \<longrightarrow> step_succeeds w interval k"
    and "1 \<le> n" and "n \<le> fuel" and "queue_declare (channel_at w n) = None"
  shows "BasicPublish [] (RABBITMQ_QUEUE env) (json_dumps w (test_message w n)) 2
           \<in> set (snd (main_ingestor fuel w env))"
proof -
  have "n < 1 + fuel" using assms(7) by simp
  with assms(5,6,8)
  have "BasicPublish [] (RABBITMQ_QUEUE env) (json_dumps w (test_message w n)) 2
          \<in> set (calls (snd (publish_loop fuel w (RABBITMQ_QUEUE env) interval 1)))"
    using publish_loop_publishes [of 1 n w interval fuel "RABBITMQ_QUEUE env"] by simp
  from main_ingestor_loop_calls [OF assms(1-4) this] show ?thesis .
qed

lemma main_ingestor_declares_queue:
  assumes "setup_logging env = None" and "INGESTOR_INTERVAL env = Inr interval"
    and "fst (create_rabbitmq_connection fuel w env) = Returned c"
    and "connection_channel w = None" and "1 \<le> fuel"
  shows "QueueDeclare (RABBITMQ_QUEUE env) True \<in> set (snd (main_ingestor fuel w env))"
proof -
  obtain f where f: "fuel = Suc f" using assms(5) by (cases fuel) simp_all
  have "QueueDeclare (RABBITMQ_QUEUE env) True
          \<in> set (calls (snd (publish_message w (channel_at w 1) (RABBITMQ_QUEUE env)
                                (test_message w 1))))"
    by (simp add: calls_publish_message)
  from publish_loop_first [OF this, of f interval]
  have "QueueDeclare (RABBITMQ_QUEUE env) True
          \<in> set (calls (snd (publish_loop fuel w (RABBITMQ_QUEUE env) interval 1)))"
    using f by simp
  from main_ingestor_loop_calls [OF assms(1-4) this] show ?thesis .
qed

lemma main_processor_declares_queue:
  assumes "setup_logging env = None"
    and "fst (create_rabbitmq_connection fuel w env) = Returned c"
    and "connection_channel w = None"
  shows "QueueDeclare (RABBITMQ_QUEUE env) True \<in> set (snd (main_processor fuel w env))"
proof -
  let ?q = "RABBITMQ_QUEUE env"
  obtain evs where C: "create_rabbitmq_connection fuel w env = (Returned c, evs)"
    using assms(2) by (cases "create_rabbitmq_connection fuel w env") simp
  obtain r' evs' where P: "consume fuel w (channel_at w 0) ?q = (r', evs')"
    by (cases "consume fuel w (channel_at w 0) ?q")
  have "QueueDeclare ?q True \<in> set (calls (snd (consume fuel w (channel_at w 0) ?q)))"
    using calls_consume_cases [of "channel_at w 0" fuel w ?q] by auto
  with P have "QueueDeclare ?q True \<in> set (calls evs')" by simp
  then have "QueueDeclare ?q True \<in> set (calls (snd (main_processor fuel w env)))"
    using assms(1,3) C P
    by (cases r')
       (simp_all add: main_processor_def Let_def calls_append calls_Cons calls_Nil
          calls_finally_clause split: option.splits)
  then show ?thesis by (simp add: calls_subset)
qed

text \<open>
  Claim C7. Both roles declare the queue named by the environment, as durable, and
  nothing else; every publish of the ingestor carries \<open>delivery_mode = 2\<close> (persistent) and
  the queue as routing key on the default exchange. On the broker as the spec describes
  it, a declaration that succeeded succeeds again with the same properties, and the
  declarations of a run of the ingestor and of a run of the processor, in either order,
  all succeed on a broker that does not hold the queue or holds it as durable.
  The calls are made: \<open>publish_message\<close> declares the queue as durable and, when the
  declaration returned, publishes the message with \<open>delivery_mode = 2\<close>, and makes no other
  call; once the ingestor's \<open>main\<close> holds a channel it declares the queue and publishes
  the message of every step \<open>n\<close> it reaches within the iterations observed (the steps
  before \<open>n\<close> went through and the declaration of step \<open>n\<close> returned); once the
  processor's \<open>main\<close> holds a channel it declares the queue.
\<close>

theorem durable_queue_persistent_messages:
  "(\<forall>queue durable.
      QueueDeclare queue durable
        \<in> set (snd (main_ingestor fuel w env)) \<union> set (snd (main_processor fuel' w' env))
      \<longrightarrow> queue = RABBITMQ_QUEUE env \<and> durable)
   \<and> (\<forall>exchange routing_key body delivery_mode.
      BasicPublish exchange routing_key body delivery_mode \<in> set (snd (main_ingestor fuel w env))
      \<longrightarrow> delivery_mode = 2 \<and> routing_key = RABBITMQ_QUEUE env \<and> exchange = [])
   \<and> (\<forall>b queue durable b1. broker_queue_declare b queue durable = Inr b1
      \<longrightarrow> broker_queue_declare b1 queue durable = Inr b1)
   \<and> (\<forall>b. b (RABBITMQ_QUEUE env) = None \<or> b (RABBITMQ_QUEUE env) = Some True
      \<longrightarrow> (\<exists>b'. broker_declares b
                   (snd (main_ingestor fuel w env) @ snd (main_processor fuel' w' env)) = Inr b')
        \<and> (\<exists>b'. broker_declares b
                   (snd (main_processor fuel' w' env) @ snd (main_ingestor fuel w env)) = Inr b'))
   \<and> (\<forall>channel queue_name message.
        calls (snd (publish_message w channel queue_name message))
          = QueueDeclare queue_name True #
            (if queue_declare channel = None
             then [BasicPublish [] queue_name (json_dumps w message) 2] else []))
   \<and> (\<forall>c interval.
        setup_logging env = None \<and> INGESTOR_INTERVAL env = Inr interval
        \<and> fst (create_rabbitmq_connection fuel w env) = Returned c
        \<and> connection_channel w = None \<and> 1 \<le> fuel
        \<longrightarrow> QueueDeclare (RABBITMQ_QUEUE env) True \<in> set (snd (main_ingestor fuel w env))
          \<and> (\<forall>n. (\<forall>k. 1 \<le> k \<and> k < n \<longrightarrow> step_succeeds w interval k)
                 \<and> 1 \<le> n \<and> n \<le> fuel \<and> queue_declare (channel_at w n) = None
                \<longrightarrow> BasicPublish [] (RABBITMQ_QUEUE env) (json_dumps w (test_message w n)) 2
                      \<in> set (snd (main_ingestor fuel w env))))
   \<and> (\<forall>c. setup_logging env = None
        \<and> fst (create_rabbitmq_connection fuel' w' env) = Returned c
        \<and> connection_channel w' = None
        \<longrightarrow> QueueDeclare (RABBITMQ_QUEUE env) True \<in> set (snd (main_processor fuel' w' env)))"
proof -
  let ?i = "snd (main_ingestor fuel w env)" and ?p = "snd (main_processor fuel' w' env)"
  have 1: "\<forall>queue durable. QueueDeclare queue durable \<in> set ?i \<union> set ?p
      \<longrightarrow> queue = RABBITMQ_QUEUE env \<and> durable"
    using main_ingestor_declares [of _ _ fuel w env] main_processor_declares [of _ _ fuel' w' env]
    by blast
  have 2: "\<forall>exchange routing_key body delivery_mode.
      BasicPublish exchange routing_key body delivery_mode \<in> set ?i
      \<longrightarrow> delivery_mode = 2 \<and> routing_key = RABBITMQ_QUEUE env \<and> exchange = []"
    using main_ingestor_publishes [of _ _ _ _ fuel w env] by blast
  have 3: "\<forall>b queue durable b1. broker_queue_declare b queue durable = Inr b1
      \<longrightarrow> broker_queue_declare b1 queue durable = Inr b1"
    using broker_queue_declare_idempotent by blast
  have ip: "\<forall>queue durable. QueueDeclare queue durable \<in> set (?i @ ?p)
      \<longrightarrow> queue = RABBITMQ_QUEUE env \<and> durable"
    using 1 by (metis Un_iff set_append)
  have pi: "\<forall>queue durable. QueueDeclare queue durable \<in> set (?p @ ?i)
      \<longrightarrow> queue = RABBITMQ_QUEUE env \<and> durable"
    using 1 by (metis Un_iff set_append)
  have 4: "\<forall>b. b (RABBITMQ_QUEUE env) = None \<or> b (RABBITMQ_QUEUE env) = Some True
      \<longrightarrow> (\<exists>b'. broker_declares b (?i @ ?p) = Inr b')
        \<and> (\<exists>b'. broker_declares b (?p @ ?i) = Inr b')"
    using broker_declares_same_queue [OF ip] broker_declares_same_queue [OF pi] by blast
  have 5: "\<forall>channel queue_name message.
        calls (snd (publish_message w channel queue_name message))
          = QueueDeclare queue_name True #
            (if queue_declare channel = None
             then [BasicPublish [] queue_name (json_dumps w message) 2] else [])"
    by (intro allI) (rule calls_publish_message)
  have 6: "\<forall>c interval.
        setup_logging env = None \<and> INGESTOR_INTERVAL env = Inr interval
        \<and> fst (create_rabbitmq_connection fuel w env) = Returned c
        \<and> connection_channel w = None \<and> 1 \<le> fuel
        \<longrightarrow> QueueDeclare (RABBITMQ_QUEUE env) True \<in> set ?i
          \<and> (\<forall>n. (\<forall>k. 1 \<le> k \<and> k < n \<longrightarrow> step_succeeds w interval k)
                 \<and> 1 \<le> n \<and> n \<le> fuel \<and> queue_declare (channel_at w n) = None
                \<longrightarrow> BasicPublish [] (RABBITMQ_QUEUE env) (json_dumps w (test_message w n)) 2
                      \<in> set ?i)"
  proof (intro allI impI, elim conjE)
    fix c interval
    assume A: "setup_logging env = None" "INGESTOR_INTERVAL env = Inr interval"
      "fst (create_rabbitmq_connection fuel w env) = Returned c"
      "connection_channel w = None" and F: "1 \<le> fuel"
    have D: "QueueDeclare (RABBITMQ_QUEUE env) True \<in> set ?i"
      using main_ingestor_declares_queue [OF A F] .
    have P: "\<forall>n. (\<forall>k. 1 \<le> k \<and> k < n \<longrightarrow> step_succeeds w interval k)
                 \<and> 1 \<le> n \<and> n \<le> fuel \<and> queue_declare (channel_at w n) = None
                \<longrightarrow> BasicPublish [] (RABBITMQ_QUEUE env) (json_dumps w (test_message w n)) 2
                      \<in> set ?i"
    proof (intro allI impI, elim conjE)
      fix n
      assume "\<forall>k. 1 \<le> k \<and> k < n \<longrightarrow> step_succeeds w interval k" "1 \<le> n" "n \<le> fuel"
        "queue_declare (channel_at w n) = None"
      with A show "BasicPublish [] (RABBITMQ_QUEUE env) (json_dumps w (test_message w n)) 2
                      \<in> set ?i"
        by (rule main_ingestor_publishes_message)
    qed
    from D P show "QueueDeclare (RABBITMQ_QUEUE env) True \<in> set ?i
          \<and> (\<forall>n. (\<forall>k. 1 \<le> k \<and> k < n \<longrightarrow> step_succeeds w interval k)
                 \<and> 1 \<le> n \<and> n \<le> fuel \<and> queue_declare (channel_at w n) = None
                \<longrightarrow> BasicPublish [] (RABBITMQ_QUEUE env) (json_dumps w (test_message w n)) 2
                      \<in> set ?i)"
      by (rule conjI)
  qed
  have 7: "\<forall>c. setup_logging env = None
        \<and> fst (create_rabbitmq_connection fuel' w' env) = Returned c
        \<and> connection_channel w' = None
        \<longrightarrow> QueueDeclare (RABBITMQ_QUEUE env) True \<in> set ?p"
    using main_processor_declares_queue [of env fuel' w'] by blast
  from 1 2 3 4 5 6 7 show ?thesis by (intro conjI)
qed

lemma two_ready_run:
  "calls (snd (main_processor 3 two_ready_world default_environ))
     = [Connect ''localhost'' 5672 ''guest'' ''guest'' 600 300, Channel,
        QueueDeclare ''game_events'' True, BasicConsume ''game_events'', BasicQos 1,
        StartConsuming, BasicAck 1, BasicAck 2, StopConsuming, Close]"
  by (simp add: main_processor_def setup_logging_def create_rabbitmq_connection_def
      consume_def process_message_def placeholder_processing_def
      two_ready_world_def quiet_world_def quiet_channel_def loads_sample_def final_score_def
      default_environ_def finally_clause_def calls_def Let_def eval_nat_numeral dquote_def)

theorem durable_queue_persistent_messages_witness:
  "setup_logging default_environ = None \<and> INGESTOR_INTERVAL default_environ = Inr 10
   \<and> fst (create_rabbitmq_connection 3 interrupted_world default_environ)
       = Returned (Connection 0)
   \<and> connection_channel interrupted_world = None
   \<and> step_succeeds interrupted_world 10 1
   \<and> queue_declare (channel_at interrupted_world 2) = None
   \<and> BasicPublish [] ''game_events''
        (json_dumps interrupted_world (test_message interrupted_world 2)) 2
       \<in> set (snd (main_ingestor 3 interrupted_world default_environ))
   \<and> QueueDeclare ''game_events'' True
       \<in> set (snd (main_ingestor 3 interrupted_world default_environ))
   \<and> fst (create_rabbitmq_connection 3 two_ready_world default_environ)
       = Returned (Connection 0)
   \<and> connection_channel two_ready_world = None
   \<and> QueueDeclare ''game_events'' True
       \<in> set (snd (main_processor 3 two_ready_world default_environ))
   \<and> [''game_events'' \<mapsto> True] (RABBITMQ_QUEUE default_environ) = Some True
   \<and> (\<exists>b'. broker_declares [''game_events'' \<mapsto> True]
              (snd (main_ingestor 3 interrupted_world default_environ)
               @ snd (main_processor 3 two_ready_world default_environ)) = Inr b')"
proof -
  note T = durable_queue_persistent_messages
             [of 3 interrupted_world default_environ 3 two_ready_world]
  have Q: "RABBITMQ_QUEUE default_environ = ''game_events''"
    by (simp add: default_environ_def)
  have S: "setup_logging default_environ = None"
    by (simp add: setup_logging_def default_environ_def)
  have I: "INGESTOR_INTERVAL default_environ = Inr 10"
    by (simp add: default_environ_def)
  have C: "fst (create_rabbitmq_connection 3 interrupted_world default_environ)
             = Returned (Connection 0)"
    by (simp add: create_rabbitmq_connection_def interrupted_world_def quiet_world_def
        default_environ_def Let_def eval_nat_numeral)
  have H: "connection_channel interrupted_world = None"
    by (simp add: interrupted_world_def quiet_world_def)
  have O: "step_succeeds interrupted_world 10 1"
    by (simp add: step_succeeds_def interrupted_world_def quiet_world_def quiet_channel_def
        time_sleep_def)
  have D: "queue_declare (channel_at interrupted_world 2) = None"
    by (simp add: interrupted_world_def quiet_world_def quiet_channel_def)
  have K: "\<forall>k. 1 \<le> k \<and> k < 2 \<longrightarrow> step_succeeds interrupted_world 10 k"
  proof (intro allI impI)
    fix k :: nat
    assume "1 \<le> k \<and> k < 2"
    then have "k = 1" by simp
    with O show "step_succeeds interrupted_world 10 k" by simp
  qed
  have F: "(1::nat) \<le> 3" and N: "(1::nat) \<le> 2" "(2::nat) \<le> 3" by simp_all
  note T6 = T [THEN conjunct2, THEN conjunct2, THEN conjunct2, THEN conjunct2, THEN conjunct2,
               THEN conjunct1, THEN spec, THEN spec, THEN mp, OF conjI [OF S conjI [OF I
                 conjI [OF C conjI [OF H F]]]]]
  have ID: "QueueDeclare (RABBITMQ_QUEUE default_environ) True
       \<in> set (snd (main_ingestor 3 interrupted_world default_environ))"
    using T6 by (rule conjunct1)
  have IP: "BasicPublish [] (RABBITMQ_QUEUE default_environ)
        (json_dumps interrupted_world (test_message interrupted_world 2)) 2
       \<in> set (snd (main_ingestor 3 interrupted_world default_environ))"
    using T6 [THEN conjunct2, THEN spec, THEN mp,
              OF conjI [OF K conjI [OF N(1) conjI [OF N(2) D]]]] .
  have C': "fst (create_rabbitmq_connection 3 two_ready_world default_environ)
             = Returned (Connection 0)"
    by (simp add: create_rabbitmq_connection_def two_ready_world_def quiet_world_def
        default_environ_def Let_def eval_nat_numeral)
  have H': "connection_channel two_ready_world = None"
    by (simp add: two_ready_world_def quiet_world_def)
  have PD: "QueueDeclare (RABBITMQ_QUEUE default_environ) True
       \<in> set (snd (main_processor 3 two_ready_world default_environ))"
    using T [THEN conjunct2, THEN conjunct2, THEN conjunct2, THEN conjunct2, THEN conjunct2,
             THEN conjunct2, THEN spec, THEN mp, OF conjI [OF S conjI [OF C' H']]] .
  have E: "[''game_events'' \<mapsto> True] (RABBITMQ_QUEUE default_environ) = Some True"
    by (simp add: default_environ_def)
  have B: "\<exists>b'. broker_declares [''game_events'' \<mapsto> True]
              (snd (main_ingestor 3 interrupted_world default_environ)
               @ snd (main_processor 3 two_ready_world default_environ)) = Inr b'"
    using T [THEN conjunct2, THEN conjunct2, THEN conjunct2, THEN conjunct1, THEN spec,
             of "[''game_events'' \<mapsto> True]"] E
    by simp
  from S I C H O D IP ID C' H' PD E B show ?thesis unfolding Q by (intro conjI)
qed

section \<open>Subscription and prefetch\<close>

text \<open>
  Claim C5 says that the consumer sets the prefetch to 1 before deliveries can be
  dispatched to it. The processor's \<open>main\<close> calls \<open>basic_consume\<close> (line 135) before
  \<open>basic_qos\<close> (line 141): the consumer is registered with the broker while no prefetch
  limit is in force. The run below, with two messages ready in the queue, shows the order
  of the calls.
\<close>

theorem processor_subscribes_before_qos:
  "calls (snd (main_processor 3 two_ready_world default_environ))
     = [Connect ''localhost'' 5672 ''guest'' ''guest'' 600 300, Channel,
        QueueDeclare ''game_events'' True, BasicConsume ''game_events'', BasicQos 1,
        StartConsuming, BasicAck 1, BasicAck 2, StopConsuming, Close]"
  by (rule two_ready_run)

section \<open>Release of the connection\<close>

text \<open>
  Claim C8 says that every way out of \<open>main\<close> closes the connection exactly once. Both
  \<open>main\<close> functions call \<open>connection.channel()\<close> (line 116 of the ingestor, line 128 of
  the processor) after the connection was opened and before the \<open>try\<close> block whose
  \<open>finally\<close> clause closes it: when that call raises, \<open>main\<close> is left with the connection
  open. The two lemmas on the last call of \<open>main\<close> above cover every other way out.
\<close>

theorem main_leaves_connection_open:
  "fst (main_ingestor 1 channel_refused_world default_environ)
     = Raised (Exception ''Channel allocation failed'')
   \<and> calls (snd (main_ingestor 1 channel_refused_world default_environ))
     = [Connect ''localhost'' 5672 ''guest'' ''guest'' 600 300, Channel]
   \<and> fst (main_processor 1 channel_refused_world default_environ)
     = Raised (Exception ''Channel allocation failed'')
   \<and> calls (snd (main_processor 1 channel_refused_world default_environ))
     = [Connect ''localhost'' 5672 ''guest'' ''guest'' 600 300, Channel]"
  by (simp add: main_ingestor_def main_processor_def setup_logging_def
      create_rabbitmq_connection_def channel_refused_world_def quiet_world_def
      default_environ_def calls_def Let_def)

end
